theory Spec2Isabelle
  imports Main "HOL-Library.Word"
begin

section \<open>JavaScript strings and values\<close>

text \<open>
  A JavaScript string is a sequence of 16-bit code units. The literals of the source are
  written as HOL strings and converted unit by unit.
\<close>

type_synonym code_unit = "16 word"
type_synonym jsstring = "code_unit list"
type_synonym byte = "8 word"

definition lit :: "string \<Rightarrow> jsstring" where
  \<comment> \<open>a string literal of the source\<close>
  "lit s = map of_char s"

text \<open>
  The exceptions the platform functions of \<open>App.js\<close> can throw: \<open>btoa\<close> and \<open>atob\<close>
  throw an \<open>InvalidCharacterError\<close> DOMException, \<open>encodeURIComponent\<close> and
  \<open>decodeURIComponent\<close> throw a \<open>URIError\<close>.
\<close>

datatype js_error = InvalidCharacterError | URIError

text \<open>
  The value held by one of the three editor states: a string, or \<open>undefined\<close> (what
  \<open>template.html\<close> evaluates to when \<open>template\<close> has no such property).
\<close>

datatype jsval = Undefined | Str jsstring

fun ToString :: "jsval \<Rightarrow> jsstring" where
  "ToString Undefined = lit ''undefined''"
| "ToString (Str s) = s"

definition truthy :: "jsstring option \<Rightarrow> bool" where
  \<comment> \<open>\<open>if (urlHtml)\<close> on the result of \<open>URLSearchParams.get\<close>: \<open>null\<close> and \<open>""\<close> are falsy.\<close>
  "truthy v = (case v of None \<Rightarrow> False | Some s \<Rightarrow> s \<noteq> [])"

section \<open>Base64: \<open>btoa\<close> and \<open>atob\<close>\<close>

definition b64_alphabet :: jsstring where
  "b64_alphabet = lit ''ABCDEFGHIJKLMNOPQRSTUVWXYZabcdefghijklmnopqrstuvwxyz0123456789+/''"

definition b64_pad :: code_unit where
  "b64_pad = 0x3D"

definition b64_char :: "nat \<Rightarrow> code_unit" where
  \<comment> \<open>the character of a six-bit value in the alphabet table\<close>
  "b64_char n = b64_alphabet ! (n mod 64)"

fun index_of :: "'a \<Rightarrow> 'a list \<Rightarrow> nat" where
  "index_of x [] = 0"
| "index_of x (y # ys) = (if x = y then 0 else Suc (index_of x ys))"

definition b64_value :: "code_unit \<Rightarrow> nat" where
  \<comment> \<open>the six-bit value of a character of the alphabet: its index in the table\<close>
  "b64_value c = index_of c b64_alphabet"

definition is_b64_char :: "code_unit \<Rightarrow> bool" where
  "is_b64_char c = (c \<in> set b64_alphabet)"

text \<open>
  Base64 encoding of a byte sequence (RFC 4648, with padding): every three bytes make a
  24-bit group read as four six-bit values; a last group of one or two bytes is filled
  with zero bits and padded with \<open>=\<close>.
\<close>

fun base64_encode :: "byte list \<Rightarrow> jsstring" where
  "base64_encode [] = []"
| "base64_encode [a] =
     (let n = unat a * 65536
      in [b64_char (n div 262144), b64_char (n div 4096 mod 64), b64_pad, b64_pad])"
| "base64_encode [a, b] =
     (let n = unat a * 65536 + unat b * 256
      in [b64_char (n div 262144), b64_char (n div 4096 mod 64),
          b64_char (n div 64 mod 64), b64_pad])"
| "base64_encode (a # b # c # rest) =
     (let n = unat a * 65536 + unat b * 256 + unat c
      in [b64_char (n div 262144), b64_char (n div 4096 mod 64),
          b64_char (n div 64 mod 64), b64_char (n mod 64)] @ base64_encode rest)"

definition btoa :: "jsstring \<Rightarrow> js_error + jsstring" where
  \<comment> \<open>\<open>btoa(data)\<close>: throws when a code unit is above U+00FF, else encodes the code units as bytes\<close>
  "btoa data =
     (if list_all (\<lambda>c. c \<le> 0xFF) data then Inr (base64_encode (map ucast data))
      else Inl InvalidCharacterError)"

definition is_ascii_whitespace :: "code_unit \<Rightarrow> bool" where
  "is_ascii_whitespace c = (c = 0x09 \<or> c = 0x0A \<or> c = 0x0C \<or> c = 0x0D \<or> c = 0x20)"

definition strip_padding :: "jsstring \<Rightarrow> jsstring" where
  \<comment> \<open>a length divisible by four: one or two \<open>=\<close> at the end are removed\<close>
  "strip_padding d =
     (if length d mod 4 = 0 then
        (case rev d of
           p # q # r \<Rightarrow> if p = b64_pad then (if q = b64_pad then rev r else rev (q # r)) else d
         | _ \<Rightarrow> d)
      else d)"

text \<open>
  The bit buffer of the decoder: four six-bit values give three bytes; a rest of two
  values (12 bits) gives one byte, the last four bits dropped, and a rest of three values
  (18 bits) gives two bytes, the last two bits dropped.
\<close>

fun base64_decode_values :: "nat list \<Rightarrow> byte list" where
  "base64_decode_values (s1 # s2 # s3 # s4 # rest) =
     (let n = ((s1 * 64 + s2) * 64 + s3) * 64 + s4
      in [of_nat (n div 65536), of_nat (n div 256 mod 256), of_nat (n mod 256)]
         @ base64_decode_values rest)"
| "base64_decode_values [s1, s2, s3] =
     (let n = ((s1 * 64 + s2) * 64 + s3) div 4
      in [of_nat (n div 256), of_nat (n mod 256)])"
| "base64_decode_values [s1, s2] = [of_nat ((s1 * 64 + s2) div 16)]"
| "base64_decode_values _ = []"

definition atob :: "jsstring \<Rightarrow> js_error + jsstring" where
  \<comment> \<open>\<open>atob(data)\<close>: the forgiving base64 decoding of the HTML standard\<close>
  "atob data =
     (let d = strip_padding (filter (\<lambda>c. \<not> is_ascii_whitespace c) data)
      in if length d mod 4 = 1 then Inl InvalidCharacterError
         else if \<not> list_all is_b64_char d then Inl InvalidCharacterError
         else Inr (map ucast (base64_decode_values (map b64_value d))))"

section \<open>UTF-16 and UTF-8\<close>

definition is_lead_surrogate :: "code_unit \<Rightarrow> bool" where
  "is_lead_surrogate c = (0xD800 \<le> c \<and> c \<le> 0xDBFF)"

definition is_trail_surrogate :: "code_unit \<Rightarrow> bool" where
  "is_trail_surrogate c = (0xDC00 \<le> c \<and> c \<le> 0xDFFF)"

definition surrogate_pair_cp :: "code_unit \<Rightarrow> code_unit \<Rightarrow> nat" where
  "surrogate_pair_cp c d = (unat c - 0xD800) * 0x400 + (unat d - 0xDC00) + 0x10000"

definition UTF16EncodeCodePoint :: "nat \<Rightarrow> jsstring" where
  "UTF16EncodeCodePoint cp =
     (if cp \<le> 0xFFFF then [of_nat cp]
      else [of_nat ((cp - 0x10000) div 0x400 + 0xD800), of_nat ((cp - 0x10000) mod 0x400 + 0xDC00)])"

definition utf8_encode_cp :: "nat \<Rightarrow> byte list" where
  "utf8_encode_cp cp =
     (if cp < 0x80 then [of_nat cp]
      else if cp < 0x800 then [of_nat (0xC0 + cp div 64), of_nat (0x80 + cp mod 64)]
      else if cp < 0x10000 then
        [of_nat (0xE0 + cp div 4096), of_nat (0x80 + cp div 64 mod 64), of_nat (0x80 + cp mod 64)]
      else
        [of_nat (0xF0 + cp div 262144), of_nat (0x80 + cp div 4096 mod 64),
         of_nat (0x80 + cp div 64 mod 64), of_nat (0x80 + cp mod 64)])"

definition is_continuation :: "nat \<Rightarrow> bool" where
  "is_continuation b = (0x80 \<le> b \<and> b \<le> 0xBF)"

definition utf8_decode_octets :: "nat list \<Rightarrow> nat option" where
  \<comment> \<open>the code point of one well-formed UTF-8 sequence of two to four octets: no overlong
      form, no surrogate, nothing above U+10FFFF\<close>
  "utf8_decode_octets octets =
     (case octets of
        [b0, b1] \<Rightarrow>
          (let cp = (b0 - 0xC0) * 64 + (b1 - 0x80)
           in if is_continuation b1 \<and> 0x80 \<le> cp then Some cp else None)
      | [b0, b1, b2] \<Rightarrow>
          (let cp = (b0 - 0xE0) * 4096 + (b1 - 0x80) * 64 + (b2 - 0x80)
           in if is_continuation b1 \<and> is_continuation b2 \<and> 0x800 \<le> cp
                 \<and> \<not> (0xD800 \<le> cp \<and> cp \<le> 0xDFFF)
              then Some cp else None)
      | [b0, b1, b2, b3] \<Rightarrow>
          (let cp = (b0 - 0xF0) * 262144 + (b1 - 0x80) * 4096 + (b2 - 0x80) * 64 + (b3 - 0x80)
           in if is_continuation b1 \<and> is_continuation b2 \<and> is_continuation b3
                 \<and> 0x10000 \<le> cp \<and> cp \<le> 0x10FFFF
              then Some cp else None)
      | _ \<Rightarrow> None)"

section \<open>\<open>encodeURIComponent\<close> and \<open>decodeURIComponent\<close>\<close>

definition prepend :: "jsstring \<Rightarrow> js_error + jsstring \<Rightarrow> js_error + jsstring" where
  \<comment> \<open>the string appended to the result so far, unless the rest of the loop throws\<close>
  "prepend s r = (case r of Inl e \<Rightarrow> Inl e | Inr t \<Rightarrow> Inr (s @ t))"

definition uri_unescaped :: jsstring where
  \<comment> \<open>letters, digits and \<open>_ - . ! ~ * ' ( )\<close>\<close>
  "uri_unescaped =
     lit ''ABCDEFGHIJKLMNOPQRSTUVWXYZabcdefghijklmnopqrstuvwxyz0123456789_-.!~*()'' @ [0x27]"

definition hex_digits :: jsstring where
  "hex_digits = lit ''0123456789ABCDEF''"

definition percent_byte :: "byte \<Rightarrow> jsstring" where
  "percent_byte b = [0x25, hex_digits ! (unat b div 16), hex_digits ! (unat b mod 16)]"

definition percent_bytes :: "byte list \<Rightarrow> jsstring" where
  "percent_bytes bs = concat (map percent_byte bs)"

text \<open>
  \<open>encodeURIComponent\<close>: an unescaped code unit is copied; any other code point is
  written as the percent-escapes of its UTF-8 octets; a surrogate without its partner
  throws \<open>URIError\<close>.
\<close>

fun encodeURIComponent :: "jsstring \<Rightarrow> js_error + jsstring" where
  "encodeURIComponent [] = Inr []"
| "encodeURIComponent (c # cs) =
     (if c \<in> set uri_unescaped then prepend [c] (encodeURIComponent cs)
      else if is_lead_surrogate c then
        (case cs of
           [] \<Rightarrow> Inl URIError
         | d # ds \<Rightarrow>
             if is_trail_surrogate d
             then prepend (percent_bytes (utf8_encode_cp (surrogate_pair_cp c d)))
                    (encodeURIComponent ds)
             else Inl URIError)
      else if is_trail_surrogate c then Inl URIError
      else prepend (percent_bytes (utf8_encode_cp (unat c))) (encodeURIComponent cs))"

definition hex_value :: "'a::len word \<Rightarrow> nat option" where
  "hex_value c =
     (if 0x30 \<le> c \<and> c \<le> 0x39 then Some (unat c - 0x30)
      else if 0x41 \<le> c \<and> c \<le> 0x46 then Some (unat c - 0x41 + 10)
      else if 0x61 \<le> c \<and> c \<le> 0x66 then Some (unat c - 0x61 + 10)
      else None)"

fun ParseHexOctet :: "'a::len word list \<Rightarrow> nat option" where
  \<comment> \<open>the octet written by the two hexadecimal digits at the head of the string\<close>
  "ParseHexOctet (h1 # h2 # rest) =
     (case hex_value h1 of
        None \<Rightarrow> None
      | Some a \<Rightarrow> (case hex_value h2 of None \<Rightarrow> None | Some b \<Rightarrow> Some (16 * a + b)))"
| "ParseHexOctet _ = None"

definition leading_ones :: "nat \<Rightarrow> nat" where
  \<comment> \<open>the number of leading 1 bits of an octet\<close>
  "leading_ones B =
     (if B < 0x80 then 0 else if B < 0xC0 then 1 else if B < 0xE0 then 2
      else if B < 0xF0 then 3 else if B < 0xF8 then 4 else 5)"

fun continuation_octets :: "nat \<Rightarrow> jsstring \<Rightarrow> nat list option" where
  \<comment> \<open>the next \<open>j\<close> escapes \<open>%XX\<close>, three code units each\<close>
  "continuation_octets 0 s = Some []"
| "continuation_octets (Suc j) s =
     (case s of
        [] \<Rightarrow> None
      | p # hs \<Rightarrow>
          if p \<noteq> 0x25 then None
          else (case ParseHexOctet hs of
                  None \<Rightarrow> None
                | Some B \<Rightarrow>
                    (case continuation_octets j (drop 2 hs) of
                       None \<Rightarrow> None
                     | Some octets \<Rightarrow> Some (B # octets))))"

text \<open>
  \<open>decodeURIComponent\<close>: a code unit other than \<open>%\<close> is copied; \<open>%XX\<close> with a leading 0
  bit is the code unit \<open>XX\<close>; otherwise the escapes of one UTF-8 sequence make one code
  point. A truncated or malformed escape and an ill-formed sequence throw \<open>URIError\<close>.
\<close>

fun decodeURIComponent :: "jsstring \<Rightarrow> js_error + jsstring" where
  "decodeURIComponent [] = Inr []"
| "decodeURIComponent (c # cs) =
     (if c \<noteq> 0x25 then prepend [c] (decodeURIComponent cs)
      else
        (case ParseHexOctet cs of
           None \<Rightarrow> Inl URIError
         | Some B \<Rightarrow>
             if leading_ones B = 0 then prepend [of_nat B] (decodeURIComponent (drop 2 cs))
             else if leading_ones B = 1 \<or> leading_ones B > 4 then Inl URIError
             else
               (case continuation_octets (leading_ones B - 1) (drop 2 cs) of
                  None \<Rightarrow> Inl URIError
                | Some octets \<Rightarrow>
                    (case utf8_decode_octets (B # octets) of
                       None \<Rightarrow> Inl URIError
                     | Some V \<Rightarrow>
                         prepend (UTF16EncodeCodePoint V)
                           (decodeURIComponent (drop (2 + 3 * (leading_ones B - 1)) cs))))))"

section \<open>\<open>URLSearchParams\<close>\<close>

text \<open>
  \<open>new URLSearchParams(init)\<close> drops one leading \<open>?\<close>, encodes the string as UTF-8 (a
  surrogate without its partner becomes U+FFFD) and parses the bytes as
  \<open>application/x-www-form-urlencoded\<close>: the sequences between \<open>&\<close> are split at their
  first \<open>=\<close>, every \<open>+\<close> becomes a space, percent-escapes are decoded, and the bytes are
  decoded as UTF-8 with replacement of ill-formed sequences.
\<close>

fun utf8_encode :: "jsstring \<Rightarrow> byte list" where
  "utf8_encode [] = []"
| "utf8_encode (c # cs) =
     (if is_lead_surrogate c then
        (case cs of
           [] \<Rightarrow> utf8_encode_cp 0xFFFD
         | d # ds \<Rightarrow>
             if is_trail_surrogate d then utf8_encode_cp (surrogate_pair_cp c d) @ utf8_encode ds
             else utf8_encode_cp 0xFFFD @ utf8_encode cs)
      else if is_trail_surrogate c then utf8_encode_cp 0xFFFD @ utf8_encode cs
      else utf8_encode_cp (unat c) @ utf8_encode cs)"

text \<open>
  The UTF-8 decoder of the Encoding standard, as a state machine: the code point built
  so far, the number of continuation bytes still needed, and the bounds of the next
  byte. An ill-formed sequence gives U+FFFD, and the byte that ended it is read again.
\<close>

fun utf8_decode :: "nat \<Rightarrow> nat \<Rightarrow> byte \<Rightarrow> byte \<Rightarrow> byte list \<Rightarrow> nat list" where
  "utf8_decode cp needed lower upper [] = (if needed \<noteq> 0 then [0xFFFD] else [])"
| "utf8_decode cp needed lower upper (b # bs) =
     (if needed = 0 then
        (if b \<le> 0x7F then unat b # utf8_decode 0 0 0x80 0xBF bs
         else if 0xC2 \<le> b \<and> b \<le> 0xDF then utf8_decode (unat b mod 32) 1 0x80 0xBF bs
         else if 0xE0 \<le> b \<and> b \<le> 0xEF then
           utf8_decode (unat b mod 16) 2 (if b = 0xE0 then 0xA0 else 0x80)
             (if b = 0xED then 0x9F else 0xBF) bs
         else if 0xF0 \<le> b \<and> b \<le> 0xF4 then
           utf8_decode (unat b mod 8) 3 (if b = 0xF0 then 0x90 else 0x80)
             (if b = 0xF4 then 0x8F else 0xBF) bs
         else 0xFFFD # utf8_decode 0 0 0x80 0xBF bs)
      else if b < lower \<or> upper < b then 0xFFFD # utf8_decode 0 0 0x80 0xBF (b # bs)
      else if needed = 1 then (cp * 64 + unat b mod 64) # utf8_decode 0 0 0x80 0xBF bs
      else utf8_decode (cp * 64 + unat b mod 64) (needed - 1) 0x80 0xBF bs)"

definition utf8_decode_without_BOM :: "byte list \<Rightarrow> jsstring" where
  "utf8_decode_without_BOM bs = concat (map UTF16EncodeCodePoint (utf8_decode 0 0 0x80 0xBF bs))"

fun split_on :: "'a \<Rightarrow> 'a list \<Rightarrow> 'a list list" where
  "split_on sep [] = [[]]"
| "split_on sep (x # xs) =
     (if x = sep then [] # split_on sep xs
      else (case split_on sep xs of [] \<Rightarrow> [[x]] | y # ys \<Rightarrow> (x # y) # ys))"

fun percent_decode :: "byte list \<Rightarrow> byte list" where
  \<comment> \<open>a \<open>%\<close> that two hexadecimal digits do not follow is kept as it is\<close>
  "percent_decode [] = []"
| "percent_decode (b # bs) =
     (if b \<noteq> 0x25 then b # percent_decode bs
      else (case ParseHexOctet bs of
              None \<Rightarrow> b # percent_decode bs
            | Some B \<Rightarrow> of_nat B # percent_decode (drop 2 bs)))"

definition plus_to_space :: "byte list \<Rightarrow> byte list" where
  "plus_to_space bs = map (\<lambda>b. if b = 0x2B then 0x20 else b) bs"

definition urlencoded_field :: "byte list \<Rightarrow> jsstring" where
  "urlencoded_field bs = utf8_decode_without_BOM (percent_decode (plus_to_space bs))"

definition name_value :: "byte list \<Rightarrow> jsstring \<times> jsstring" where
  \<comment> \<open>split at the first \<open>=\<close>; without one the value is empty\<close>
  "name_value bs =
     (urlencoded_field (takeWhile (\<lambda>b. b \<noteq> 0x3D) bs),
      urlencoded_field (drop 1 (dropWhile (\<lambda>b. b \<noteq> 0x3D) bs)))"

definition urlencoded_parse :: "byte list \<Rightarrow> (jsstring \<times> jsstring) list" where
  "urlencoded_parse input = map name_value (filter (\<lambda>bs. bs \<noteq> []) (split_on 0x26 input))"

definition URLSearchParams :: "jsstring \<Rightarrow> (jsstring \<times> jsstring) list" where
  "URLSearchParams init =
     urlencoded_parse (utf8_encode (case init of [] \<Rightarrow> [] | c # cs \<Rightarrow> if c = 0x3F then cs else init))"

definition URLSearchParams_get :: "(jsstring \<times> jsstring) list \<Rightarrow> jsstring \<Rightarrow> jsstring option" where
  \<comment> \<open>\<open>urlParams.get(name)\<close>: the value of the first pair of that name, or \<open>null\<close>\<close>
  "URLSearchParams_get params name = map_of params name"

text \<open>
  \<open>window.location.search\<close> of a page opened at a URL. The fragment, from the first \<open>#\<close>
  on, is no part of the query; the query is what follows the first \<open>?\<close> of the rest, and
  the result is \<open>?\<close> with the query, or the empty string when there is no query or an
  empty one. The URL parser also percent-encodes the control characters, spaces, quotes,
  angle brackets and non-ASCII characters of a query; that step is left out here, the
  function being applied to the URLs of \<open>generateShareUrl\<close>, whose queries hold only
  letters, digits, \<open>%\<close>, \<open>&\<close> and \<open>=\<close>.
\<close>

definition location_search :: "jsstring \<Rightarrow> jsstring" where
  "location_search url =
     (let q = dropWhile (\<lambda>c. c \<noteq> 0x3F) (takeWhile (\<lambda>c. c \<noteq> 0x23) url)
      in if length q \<le> 1 then [] else q)"

text \<open>
  \<open>window.location.origin\<close> of a page with a scheme, a host and a port is the text
  \<open>scheme://host\<close> or \<open>scheme://host:port\<close>: a scheme, \<open>://\<close>, and a non-empty authority in
  which no path, query or fragment begins. An absolute URL begins in the same way and
  may go on after the authority.
\<close>

definition is_ascii_alpha :: "code_unit \<Rightarrow> bool" where
  "is_ascii_alpha c = ((0x41 \<le> c \<and> c \<le> 0x5A) \<or> (0x61 \<le> c \<and> c \<le> 0x7A))"

definition is_ascii_digit :: "code_unit \<Rightarrow> bool" where
  "is_ascii_digit c = (0x30 \<le> c \<and> c \<le> 0x39)"

definition is_scheme :: "jsstring \<Rightarrow> bool" where
  \<comment> \<open>a letter, then letters, digits, \<open>+\<close>, \<open>-\<close> and \<open>.\<close>\<close>
  "is_scheme sch =
     (case sch of
        [] \<Rightarrow> False
      | c # cs \<Rightarrow>
          is_ascii_alpha c
          \<and> list_all (\<lambda>x. is_ascii_alpha x \<or> is_ascii_digit x \<or> x = 0x2B \<or> x = 0x2D \<or> x = 0x2E) cs)"

definition url_scheme :: "jsstring \<Rightarrow> jsstring" where
  "url_scheme u = takeWhile (\<lambda>c. c \<noteq> 0x3A) u"

definition after_scheme :: "jsstring \<Rightarrow> jsstring" where
  \<comment> \<open>what follows the scheme and the three code units after it\<close>
  "after_scheme u = drop (length (url_scheme u) + 3) u"

definition url_authority :: "jsstring \<Rightarrow> jsstring" where
  "url_authority u = takeWhile (\<lambda>c. c \<noteq> 0x2F \<and> c \<noteq> 0x3F \<and> c \<noteq> 0x23) (after_scheme u)"

definition is_absolute_url :: "jsstring \<Rightarrow> bool" where
  "is_absolute_url u =
     (is_scheme (url_scheme u) \<and> take 3 (drop (length (url_scheme u)) u) = lit ''://''
      \<and> url_authority u \<noteq> [])"

definition is_origin :: "jsstring \<Rightarrow> bool" where
  "is_origin origin = (is_absolute_url origin \<and> url_authority origin = after_scheme origin)"

section \<open>The template registry\<close>

fun lit_lines :: "string list \<Rightarrow> jsstring" where
  \<comment> \<open>a template literal of the source, line by line\<close>
  "lit_lines [] = []"
| "lit_lines [l] = lit l"
| "lit_lines (l # ls) = lit l @ [0x0A] @ lit_lines ls"

record template =
  html :: jsstring
  css :: jsstring
  js :: jsstring

definition TEMPLATES_default_html :: jsstring where
  \<open>TEMPLATES_default_html = lit_lines
    [''<!DOCTYPE html>'',
    ''<html>'',
    ''<head>'',
    ''  <title>Live Preview</title>'',
    ''</head>'',
    ''<body>'',
    ''  <h1>Hello from the Editor!</h1>'',
    ''  <p>Start typing your HTML here.</p>'',
    ''  <button id="myButton">Click Me</button>'',
    ''</body>'',
    ''</html>'']\<close>

definition TEMPLATES_default_css :: jsstring where
  \<open>TEMPLATES_default_css = lit_lines
    [''body {'',
    ''  margin: 0;'',
    ''  display: flex;'',
    ''  justify-content: center;'',
    ''  align-items: center;'',
    ''  min-height: 100vh;'',
    ''  flex-direction: column;'',
    ''}'',
    ''h1 {'',
    ''  text-align: center;'',
    ''  font-size: 3em;'',
    ''  color: green;'',
    ''}'',
    ''button {'',
    ''  padding: 10px 20px;'',
    ''  background-color: #007bff;'',
    ''  color: white;'',
    ''  border: none;'',
    ''  border-radius: 5px;'',
    ''  cursor: pointer;'',
    ''  margin-top: 20px;'',
    ''}'',
    ''button:hover {'',
    ''  background-color: #0056b3;'',
    ''}'']\<close>

definition TEMPLATES_default_js :: jsstring where
  \<open>TEMPLATES_default_js = lit_lines
    [''console.log("Hello from JavaScript!");'',
    ''document.addEventListener('DOMContentLoaded', () => {'',
    ''  const button = document.getElementById('myButton');'',
    ''  if (button) {'',
    ''    button.addEventListener('click', () => {'',
    ''      alert('Button clicked!');'',
    ''    });'',
    ''  }'',
    ''});'']\<close>

definition TEMPLATES_simpleCard_html :: jsstring where
  \<open>TEMPLATES_simpleCard_html = lit_lines
    [''<!DOCTYPE html>'',
    ''<html>'',
    ''<head>'',
    ''  <title>Simple Card</title>'',
    ''</head>'',
    ''<body>'',
    ''  <div class="card">'',
    ''    <h2>Card Title</h2>'',
    ''    <p>This is a simple card created with HTML and CSS.</p>'',
    ''    <button class="card-button">Learn More</button>'',
    ''  </div>'',
    ''</body>'',
    ''</html>'']\<close>

definition TEMPLATES_simpleCard_css :: jsstring where
  \<open>TEMPLATES_simpleCard_css = lit_lines
    [''body {'',
    ''  font-family: sans-serif;'',
    ''  margin: 0;'',
    ''  display: flex;'',
    ''  justify-content: center;'',
    ''  align-items: center;'',
    ''  min-height: 100vh;'',
    ''  background-color: #f4f4f4;'',
    ''}'',
    ''.card {'',
    ''  background-color: #fff;'',
    ''  border-radius: 8px;'',
    ''  box-shadow: 0 4px 8px rgba(0, 0, 0, 0.1);'',
    ''  padding: 20px;'',
    ''  width: 300px;'',
    ''  text-align: center;'',
    ''}'',
    ''.card h2 {'',
    ''  color: #333;'',
    ''}'',
    ''.card p {'',
    ''  color: #666;'',
    ''  font-size: 0.9em;'',
    ''  line-height: 1.5;'',
    ''}'',
    ''.card-button {'',
    ''  background-color: #4CAF50;'',
    ''  color: white;'',
    ''  padding: 10px 15px;'',
    ''  border: none;'',
    ''  border-radius: 5px;'',
    ''  cursor: pointer;'',
    ''  margin-top: 15px;'',
    ''}'',
    ''.card-button:hover {'',
    ''  background-color: #45a049;'',
    ''}'']\<close>

definition TEMPLATES_simpleCard_js :: jsstring where
  \<open>TEMPLATES_simpleCard_js = lit_lines
    [''console.log("Card loaded!");'',
    ''document.addEventListener('DOMContentLoaded', () => {'',
    ''  const button = document.querySelector('.card-button');'',
    ''  if (button) {'',
    ''    button.addEventListener('click', () => {'',
    ''      alert('Card button clicked!');'',
    ''    });'',
    ''  }'',
    ''});'']\<close>

definition TEMPLATES_flexboxExample_html :: jsstring where
  \<open>TEMPLATES_flexboxExample_html = lit_lines
    [''<!DOCTYPE html>'',
    ''<html>'',
    ''<head>'',
    ''  <title>Flexbox Layout</title>'',
    ''</head>'',
    ''<body>'',
    ''  <div class="flex-container">'',
    ''    <div class="flex-item">Item 1</div>'',
    ''    <div class="flex-item">Item 2</div>'',
    ''    <div class="flex-item">Item 3</div>'',
    ''  </div>'',
    ''</body>'',
    ''</html>'']\<close>

definition TEMPLATES_flexboxExample_css :: jsstring where
  \<open>TEMPLATES_flexboxExample_css = lit_lines
    [''body {'',
    ''  font-family: sans-serif;'',
    ''  margin: 0;'',
    ''  display: flex;'',
    ''  justify-content: center;'',
    ''  align-items: center;'',
    ''  min-height: 100vh;'',
    ''  background-color: #eee;'',
    ''}'',
    ''.flex-container {'',
    ''  display: flex;'',
    ''  flex-wrap: wrap;'',
    ''  gap: 10px;'',
    ''  padding: 20px;'',
    ''  background-color: #fff;'',
    ''  border-radius: 8px;'',
    ''  box-shadow: 0 2px 4px rgba(0,0,0,0.1);'',
    ''}'',
    ''.flex-item {'',
    ''  background-color: #007bff;'',
    ''  color: white;'',
    ''  padding: 20px;'',
    ''  border-radius: 5px;'',
    ''  flex: 1; /* Allows items to grow and shrink */'',
    ''  min-width: 100px;'',
    ''  text-align: center;'',
    ''}'',
    '''']\<close>

definition TEMPLATES_flexboxExample_js :: jsstring where
  \<open>TEMPLATES_flexboxExample_js = lit_lines
    [''console.log("Flexbox example loaded.");'']\<close>

definition TEMPLATES :: "(jsstring \<times> template) list" where
  "TEMPLATES =
     [(lit ''default'',
         \<lparr>html = TEMPLATES_default_html, css = TEMPLATES_default_css, js = TEMPLATES_default_js\<rparr>),
      (lit ''simpleCard'',
         \<lparr>html = TEMPLATES_simpleCard_html, css = TEMPLATES_simpleCard_css,
          js = TEMPLATES_simpleCard_js\<rparr>),
      (lit ''flexboxExample'',
         \<lparr>html = TEMPLATES_flexboxExample_html, css = TEMPLATES_flexboxExample_css,
          js = TEMPLATES_flexboxExample_js\<rparr>)]"

text \<open>
  \<open>TEMPLATES\<close> is an object literal, so \<open>TEMPLATES[templateName]\<close> finds the three own
  properties and, through the prototype chain, the members of \<open>Object.prototype\<close>:
  functions, and for \<open>__proto__\<close> the prototype object itself. All of them are truthy
  and none has a property \<open>html\<close>, \<open>css\<close> or \<open>js\<close>.
\<close>

definition Object_prototype_names :: "jsstring list" where
  "Object_prototype_names =
     [lit ''constructor'', lit ''hasOwnProperty'', lit ''isPrototypeOf'',
      lit ''propertyIsEnumerable'', lit ''toLocaleString'', lit ''toString'', lit ''valueOf'',
      lit ''__proto__'', lit ''__defineGetter__'', lit ''__defineSetter__'',
      lit ''__lookupGetter__'', lit ''__lookupSetter__'']"

datatype property = NotFound | OwnTemplate template | InheritedMember

definition TEMPLATES_lookup :: "jsstring \<Rightarrow> property" where
  "TEMPLATES_lookup templateName =
     (case map_of TEMPLATES templateName of
        Some t \<Rightarrow> OwnTemplate t
      | None \<Rightarrow> if templateName \<in> set Object_prototype_names then InheritedMember else NotFound)"

section \<open>The component \<open>App\<close>\<close>

record app_state =
  htmlCode :: jsval
  cssCode :: jsval
  jsCode :: jsval
  srcDoc :: jsstring

definition initial_state :: app_state where
  \<comment> \<open>the four \<open>useState\<close> calls\<close>
  "initial_state =
     \<lparr>htmlCode = Str TEMPLATES_default_html, cssCode = Str TEMPLATES_default_css,
      jsCode = Str TEMPLATES_default_js, srcDoc = []\<rparr>"

definition setHtmlCode :: "jsval \<Rightarrow> app_state \<Rightarrow> app_state" where
  "setHtmlCode v st = st\<lparr>htmlCode := v\<rparr>"

definition setCssCode :: "jsval \<Rightarrow> app_state \<Rightarrow> app_state" where
  "setCssCode v st = st\<lparr>cssCode := v\<rparr>"

definition setJsCode :: "jsval \<Rightarrow> app_state \<Rightarrow> app_state" where
  "setJsCode v st = st\<lparr>jsCode := v\<rparr>"

definition setSrcDoc :: "jsstring \<Rightarrow> app_state \<Rightarrow> app_state" where
  "setSrcDoc v st = st\<lparr>srcDoc := v\<rparr>"

subsection \<open>The effect that composes the preview document\<close>

definition fullSrcDoc :: "app_state \<Rightarrow> jsstring" where
  \<comment> \<open>the template literal; \<open>${...}\<close> converts its value to a string\<close>
  "fullSrcDoc st =
     lit_lines ['''', ''      <!DOCTYPE html>'', ''      <html>'', ''      <head>'',
                ''        <style>'']
     @ ToString (cssCode st)
     @ lit_lines [''</style>'', ''      </head>'', ''      <body>'', ''        '']
     @ ToString (htmlCode st)
     @ lit_lines ['''', ''        <script>'']
     @ ToString (jsCode st)
     @ lit_lines [''</script>'', ''      </body>'', ''      </html>'', ''    '']"

definition srcDoc_effect :: "app_state \<Rightarrow> app_state" where
  "srcDoc_effect st = setSrcDoc (fullSrcDoc st) st"

subsection \<open>The effect that reads the code from the URL\<close>

definition decode_param :: "jsstring \<Rightarrow> js_error + jsstring" where
  \<comment> \<open>\<open>atob(decodeURIComponent(v))\<close>\<close>
  "decode_param v = (case decodeURIComponent v of Inl e \<Rightarrow> Inl e | Inr s \<Rightarrow> atob s)"

definition set_from_param ::
  "jsstring option \<Rightarrow> (jsval \<Rightarrow> app_state \<Rightarrow> app_state) \<Rightarrow> app_state \<Rightarrow> js_error + app_state" where
  \<comment> \<open>one statement of the \<open>try\<close> block: \<open>if (urlX) setX(atob(decodeURIComponent(urlX)))\<close>\<close>
  "set_from_param p setter st =
     (if truthy p then
        (case p of
           None \<Rightarrow> Inr st
         | Some v \<Rightarrow> (case decode_param v of Inl e \<Rightarrow> Inl e | Inr s \<Rightarrow> Inr (setter (Str s) st)))
      else Inr st)"

definition fallback :: "app_state \<Rightarrow> app_state" where
  \<comment> \<open>the \<open>catch\<close> block\<close>
  "fallback st =
     setJsCode (Str TEMPLATES_default_js)
       (setCssCode (Str TEMPLATES_default_css) (setHtmlCode (Str TEMPLATES_default_html) st))"

definition decode_params ::
  "jsstring option \<Rightarrow> jsstring option \<Rightarrow> jsstring option \<Rightarrow> app_state \<Rightarrow> app_state" where
  \<comment> \<open>the \<open>if\<close> statement of the effect; a statement that throws leaves the state to the
      \<open>catch\<close> block as the statements before it have set it\<close>
  "decode_params urlHtml urlCss urlJs st =
     (if truthy urlHtml \<or> truthy urlCss \<or> truthy urlJs then
        (case set_from_param urlHtml setHtmlCode st of
           Inl e \<Rightarrow> fallback st
         | Inr st1 \<Rightarrow>
             (case set_from_param urlCss setCssCode st1 of
                Inl e \<Rightarrow> fallback st1
              | Inr st2 \<Rightarrow>
                  (case set_from_param urlJs setJsCode st2 of
                     Inl e \<Rightarrow> fallback st2
                   | Inr st3 \<Rightarrow> st3)))
      else st)"

definition url_effect :: "jsstring \<Rightarrow> app_state \<Rightarrow> app_state" where
  \<comment> \<open>the effect run once on mount; \<open>search\<close> is \<open>window.location.search\<close>\<close>
  "url_effect search st =
     (let urlParams = URLSearchParams search;
          urlHtml = URLSearchParams_get urlParams (lit ''html'');
          urlCss = URLSearchParams_get urlParams (lit ''css'');
          urlJs = URLSearchParams_get urlParams (lit ''js'')
      in decode_params urlHtml urlCss urlJs st)"

subsection \<open>\<open>generateShareUrl\<close>\<close>

definition encode_param :: "jsval \<Rightarrow> js_error + jsstring" where
  \<comment> \<open>\<open>encodeURIComponent(btoa(code))\<close>; \<open>btoa\<close> converts its argument to a string\<close>
  "encode_param code =
     (case btoa (ToString code) of Inl e \<Rightarrow> Inl e | Inr b \<Rightarrow> encodeURIComponent b)"

definition generateShareUrl :: "jsstring \<Rightarrow> app_state \<Rightarrow> js_error + jsstring" where
  \<comment> \<open>\<open>origin\<close> is \<open>window.location.origin\<close>\<close>
  "generateShareUrl origin st =
     (case encode_param (htmlCode st) of
        Inl e \<Rightarrow> Inl e
      | Inr encodedHtml \<Rightarrow>
          (case encode_param (cssCode st) of
             Inl e \<Rightarrow> Inl e
           | Inr encodedCss \<Rightarrow>
               (case encode_param (jsCode st) of
                  Inl e \<Rightarrow> Inl e
                | Inr encodedJs \<Rightarrow>
                    Inr (origin @ lit ''/?html='' @ encodedHtml @ lit ''&css='' @ encodedCss
                         @ lit ''&js='' @ encodedJs))))"

subsection \<open>\<open>loadTemplate\<close>\<close>

definition template_select_values :: "jsstring list" where
  \<comment> \<open>the values of the options of the template selector, the only caller of
      \<open>loadTemplate\<close>: \<open>""\<close> and \<open>Object.keys(TEMPLATES)\<close>\<close>
  "template_select_values = [] # map fst TEMPLATES"

definition loadTemplate :: "jsstring \<Rightarrow> bool \<Rightarrow> app_state \<Rightarrow> app_state" where
  \<comment> \<open>\<open>confirmed\<close> is the answer \<open>window.confirm\<close> gives when it is asked\<close>
  "loadTemplate templateName confirmed st =
     (if templateName = [] then st
      else
        (case TEMPLATES_lookup templateName of
           NotFound \<Rightarrow> st
         | OwnTemplate t \<Rightarrow>
             if confirmed
             then setJsCode (Str (js t)) (setCssCode (Str (css t)) (setHtmlCode (Str (html t)) st))
             else st
         | InheritedMember \<Rightarrow>
             if confirmed
             then setJsCode Undefined (setCssCode Undefined (setHtmlCode Undefined st))
             else st))"

section \<open>Auxiliary definitions of the proofs\<close>

text \<open>
  The state the effect ends with when no present parameter throws: each statement of the
  \<open>try\<close> block sets its buffer or leaves the state alone.
\<close>

definition set_if_truthy ::
  "jsstring option \<Rightarrow> (jsval \<Rightarrow> app_state \<Rightarrow> app_state) \<Rightarrow> app_state \<Rightarrow> app_state" where
  "set_if_truthy p setter st =
     (case p of
        None \<Rightarrow> st
      | Some v \<Rightarrow>
          if v = [] then st
          else (case decode_param v of Inl e \<Rightarrow> st | Inr s \<Rightarrow> setter (Str s) st))"

text \<open>
  The six-bit values that \<open>base64_encode\<close> writes, and the number of \<open>=\<close> it appends.
\<close>

fun base64_values :: "byte list \<Rightarrow> nat list" where
  "base64_values [] = []"
| "base64_values [a] =
     (let n = unat a * 65536 in [n div 262144, n div 4096 mod 64])"
| "base64_values [a, b] =
     (let n = unat a * 65536 + unat b * 256
      in [n div 262144, n div 4096 mod 64, n div 64 mod 64])"
| "base64_values (a # b # c # rest) =
     (let n = unat a * 65536 + unat b * 256 + unat c
      in [n div 262144, n div 4096 mod 64, n div 64 mod 64, n mod 64] @ base64_values rest)"

fun base64_padding :: "byte list \<Rightarrow> nat" where
  "base64_padding [] = 0"
| "base64_padding [a] = 2"
| "base64_padding [a, b] = 1"
| "base64_padding (a # b # c # rest) = base64_padding rest"

text \<open>
  What \<open>encodeURIComponent\<close> writes for one code unit that is no surrogate, and the
  characters it writes for a base64 string: letters, digits and \<open>%\<close>.
\<close>

definition uri_escape :: "code_unit \<Rightarrow> jsstring" where
  "uri_escape c =
     (if c \<in> set uri_unescaped then [c] else percent_bytes (utf8_encode_cp (unat c)))"

definition is_param_char :: "code_unit \<Rightarrow> bool" where
  "is_param_char c =
     (c \<in> set (lit ''ABCDEFGHIJKLMNOPQRSTUVWXYZabcdefghijklmnopqrstuvwxyz0123456789%''))"

definition is_base64_text :: "jsstring \<Rightarrow> bool" where
  "is_base64_text b = list_all (\<lambda>x. x \<in> set b64_alphabet \<or> x = b64_pad) b"

section \<open>Evaluation of the platform functions on literals\<close>

lemmas parse_eval = URLSearchParams_def URLSearchParams_get_def urlencoded_parse_def name_value_def
  urlencoded_field_def plus_to_space_def utf8_decode_without_BOM_def UTF16EncodeCodePoint_def
  utf8_encode_cp_def is_lead_surrogate_def is_trail_surrogate_def hex_value_def lit_def

lemmas base64_eval = atob_def btoa_def strip_padding_def b64_pad_def is_ascii_whitespace_def
  is_b64_char_def b64_alphabet_def b64_value_def b64_char_def lit_def

lemmas setters = setHtmlCode_def setCssCode_def setJsCode_def setSrcDoc_def

lemma atob_empty: "atob [] = Inr []"
  by (simp add: atob_def strip_padding_def)

lemma decode_param_empty: "decode_param [] = Inr []"
  by (simp add: decode_param_def atob_empty)

lemma decode_param_throws_nonempty: "decode_param v = Inl e \<Longrightarrow> v \<noteq> []"
  by (auto simp: decode_param_empty)

section \<open>The composer\<close>

lemma lit_append: "lit (a @ b) = lit a @ lit b"
  by (simp add: lit_def)

text \<open>
  C4. For every triple of texts the composed document is one fixed frame with three holes:
  the style text stands verbatim between \<open><style>\<close> and \<open></style>\<close>, the markup text
  verbatim after \<open><body>\<close>, and the script text verbatim between \<open><script>\<close> and
  \<open></script>\<close>; the style region comes before the markup and the script region after it,
  with nothing but white space between the markup and its neighbours.
\<close>

theorem composer_embeds_verbatim_in_order:
  "\<exists>pre mid gap1 gap2 post.
     list_all is_ascii_whitespace gap1 \<and> list_all is_ascii_whitespace gap2 \<and>
     (\<forall>m s j d.
        fullSrcDoc \<lparr>htmlCode = Str m, cssCode = Str s, jsCode = Str j, srcDoc = d\<rparr> =
          pre @ lit ''<style>'' @ s @ lit ''</style>'' @ mid @ lit ''<body>'' @ gap1 @ m
          @ gap2 @ lit ''<script>'' @ j @ lit ''</script>'' @ post)"
proof -
  let ?pre = "lit_lines ['''', ''      <!DOCTYPE html>'', ''      <html>'', ''      <head>'', ''        '']"
  let ?mid = "lit_lines ['''', ''      </head>'', ''      '']"
  let ?gap1 = "lit_lines ['''', ''        '']"
  let ?post = "lit_lines ['''', ''      </body>'', ''      </html>'', ''    '']"
  have "list_all is_ascii_whitespace ?gap1"
    by (simp add: lit_def is_ascii_whitespace_def)
  moreover have "\<forall>m s j d.
        fullSrcDoc \<lparr>htmlCode = Str m, cssCode = Str s, jsCode = Str j, srcDoc = d\<rparr> =
          ?pre @ lit ''<style>'' @ s @ lit ''</style>'' @ ?mid @ lit ''<body>'' @ ?gap1 @ m
          @ ?gap1 @ lit ''<script>'' @ j @ lit ''</script>'' @ ?post"
    by (simp add: fullSrcDoc_def lit_def)
  ultimately show ?thesis by blast
qed

text \<open>
  C9. The composed document is a function of the three buffers alone: two states of the
  component that agree on the markup, style and script buffers give the same document,
  whatever else differs (the document composed before).
\<close>

theorem composer_depends_only_on_buffers:
  assumes "htmlCode st = htmlCode st'" and "cssCode st = cssCode st'" and "jsCode st = jsCode st'"
  shows "fullSrcDoc st = fullSrcDoc st' \<and> srcDoc (srcDoc_effect st) = srcDoc (srcDoc_effect st')"
  using assms by (simp add: fullSrcDoc_def srcDoc_effect_def setSrcDoc_def)

theorem composer_depends_only_on_buffers_witness:
  "initial_state \<noteq> initial_state\<lparr>srcDoc := lit ''stale''\<rparr>
   \<and> fullSrcDoc initial_state = fullSrcDoc (initial_state\<lparr>srcDoc := lit ''stale''\<rparr>)
   \<and> srcDoc (srcDoc_effect initial_state)
       = srcDoc (srcDoc_effect (initial_state\<lparr>srcDoc := lit ''stale''\<rparr>))"
  using composer_depends_only_on_buffers
    [of initial_state "initial_state\<lparr>srcDoc := lit ''stale''\<rparr>"]
  by (simp add: initial_state_def lit_def)

section \<open>The effect that reads the URL\<close>

lemma set_from_param_absent [simp]: "set_from_param None setter st = Inr st"
  by (simp add: set_from_param_def truthy_def)

lemma set_from_param_empty [simp]: "set_from_param (Some []) setter st = Inr st"
  by (simp add: set_from_param_def truthy_def)

lemma set_from_param_throws:
  "decode_param v = Inl e \<Longrightarrow> set_from_param (Some v) setter st = Inl e"
  by (auto simp: set_from_param_def truthy_def decode_param_empty)

lemma set_from_param_value:
  "v \<noteq> [] \<Longrightarrow> decode_param v = Inr s \<Longrightarrow> set_from_param (Some v) setter st = Inr (setter (Str s) st)"
  by (simp add: set_from_param_def truthy_def)

lemma set_from_param_cases:
  "set_from_param p setter st = Inr st
   \<or> (\<exists>v s. p = Some v \<and> v \<noteq> [] \<and> decode_param v = Inr s
          \<and> set_from_param p setter st = Inr (setter (Str s) st))
   \<or> (\<exists>v e. p = Some v \<and> v \<noteq> [] \<and> decode_param v = Inl e
          \<and> set_from_param p setter st = Inl e)"
  by (cases p; cases "decode_param (the p)") (auto simp: set_from_param_def truthy_def)

lemma fallback_buffers:
  "htmlCode (fallback st) = Str TEMPLATES_default_html"
  "cssCode (fallback st) = Str TEMPLATES_default_css"
  "jsCode (fallback st) = Str TEMPLATES_default_js"
  "srcDoc (fallback st) = srcDoc st"
  by (simp_all add: fallback_def setters)

lemma fallback_after_setters [simp]:
  "fallback (setHtmlCode v st) = fallback st"
  "fallback (setCssCode v st) = fallback st"
  "fallback (setJsCode v st) = fallback st"
  by (simp_all add: fallback_def setters)

lemma set_from_param_fallback:
  assumes "set_from_param p setter st = Inr st'" and "\<And>v s. fallback (setter v s) = fallback s"
  shows "fallback st' = fallback st"
  using assms by (auto simp: set_from_param_def split: if_splits option.splits sum.splits)

lemma decode_params_throws:
  assumes "(\<exists>v e. urlHtml = Some v \<and> decode_param v = Inl e)
           \<or> (\<exists>v e. urlCss = Some v \<and> decode_param v = Inl e)
           \<or> (\<exists>v e. urlJs = Some v \<and> decode_param v = Inl e)"
  shows "decode_params urlHtml urlCss urlJs st = fallback st"
proof -
  from assms have t: "truthy urlHtml \<or> truthy urlCss \<or> truthy urlJs"
    by (auto simp: truthy_def decode_param_empty)
  show ?thesis
  proof (cases "set_from_param urlHtml setHtmlCode st")
    case (Inl e)
    then show ?thesis using t by (simp add: decode_params_def)
  next
    case h: (Inr st1)
    then have f1: "fallback st1 = fallback st"
      by (rule set_from_param_fallback) simp
    show ?thesis
    proof (cases "set_from_param urlCss setCssCode st1")
      case (Inl e)
      then show ?thesis using t h f1 by (simp add: decode_params_def)
    next
      case c: (Inr st2)
      then have f2: "fallback st2 = fallback st1"
        by (rule set_from_param_fallback) simp
      show ?thesis
      proof (cases "set_from_param urlJs setJsCode st2")
        case (Inl e)
        then show ?thesis using t h c f1 f2 by (simp add: decode_params_def)
      next
        case j: (Inr st3)
        from assms h c j have False
          by (auto simp: set_from_param_throws)
        then show ?thesis ..
      qed
    qed
  qed
qed

text \<open>
  C2. Whenever one of the parameters \<open>html\<close>, \<open>css\<close>, \<open>js\<close> is present in the query string
  and its decoding throws, the effect ends with all three buffers at the default
  template, whatever the other parameters decoded to and whatever the buffers held before.
\<close>

theorem corrupt_parameter_resets_all_buffers:
  assumes "(\<exists>v e. URLSearchParams_get (URLSearchParams search) (lit ''html'') = Some v
                  \<and> decode_param v = Inl e)
           \<or> (\<exists>v e. URLSearchParams_get (URLSearchParams search) (lit ''css'') = Some v
                  \<and> decode_param v = Inl e)
           \<or> (\<exists>v e. URLSearchParams_get (URLSearchParams search) (lit ''js'') = Some v
                  \<and> decode_param v = Inl e)"
  shows "htmlCode (url_effect search st) = Str TEMPLATES_default_html
         \<and> cssCode (url_effect search st) = Str TEMPLATES_default_css
         \<and> jsCode (url_effect search st) = Str TEMPLATES_default_js"
proof -
  have "url_effect search st = fallback st"
    unfolding url_effect_def Let_def using assms by (rule decode_params_throws)
  then show ?thesis by (simp add: fallback_buffers)
qed

lemma search_good_html_bad_css:
  "URLSearchParams (lit ''?html=PHA%2BaGk8L3A%2B&css=%%%'')
     = [(lit ''html'', lit ''PHA+aGk8L3A+''), (lit ''css'', lit ''%%%'')]"
  by (simp add: parse_eval)

lemma decode_param_good: "decode_param (lit ''PHA+aGk8L3A+'') = Inr (lit ''<p>hi</p>'')"
  by (simp add: decode_param_def prepend_def base64_eval)

lemma decode_param_bad: "decode_param (lit ''%%%'') = Inl URIError"
  by (simp add: decode_param_def parse_eval)

theorem corrupt_parameter_resets_all_buffers_witness:
  "URLSearchParams_get (URLSearchParams (lit ''?html=PHA%2BaGk8L3A%2B&css=%%%'')) (lit ''html'')
     = Some (lit ''PHA+aGk8L3A+'')
   \<and> decode_param (lit ''PHA+aGk8L3A+'') = Inr (lit ''<p>hi</p>'')
   \<and> URLSearchParams_get (URLSearchParams (lit ''?html=PHA%2BaGk8L3A%2B&css=%%%'')) (lit ''css'')
     = Some (lit ''%%%'')
   \<and> decode_param (lit ''%%%'') = Inl URIError
   \<and> htmlCode (url_effect (lit ''?html=PHA%2BaGk8L3A%2B&css=%%%'')
        \<lparr>htmlCode = Str (lit ''a''), cssCode = Str (lit ''b''), jsCode = Undefined, srcDoc = []\<rparr>)
       = Str TEMPLATES_default_html
   \<and> cssCode (url_effect (lit ''?html=PHA%2BaGk8L3A%2B&css=%%%'')
        \<lparr>htmlCode = Str (lit ''a''), cssCode = Str (lit ''b''), jsCode = Undefined, srcDoc = []\<rparr>)
       = Str TEMPLATES_default_css
   \<and> jsCode (url_effect (lit ''?html=PHA%2BaGk8L3A%2B&css=%%%'')
        \<lparr>htmlCode = Str (lit ''a''), cssCode = Str (lit ''b''), jsCode = Undefined, srcDoc = []\<rparr>)
       = Str TEMPLATES_default_js"
proof -
  have h: "URLSearchParams_get (URLSearchParams (lit ''?html=PHA%2BaGk8L3A%2B&css=%%%'')) (lit ''html'')
     = Some (lit ''PHA+aGk8L3A+'')"
    unfolding search_good_html_bad_css URLSearchParams_get_def by (simp add: lit_def)
  have c: "URLSearchParams_get (URLSearchParams (lit ''?html=PHA%2BaGk8L3A%2B&css=%%%'')) (lit ''css'')
     = Some (lit ''%%%'')"
    unfolding search_good_html_bad_css URLSearchParams_get_def by (simp add: lit_def)
  from c decode_param_bad
  have "(\<exists>v e. URLSearchParams_get (URLSearchParams (lit ''?html=PHA%2BaGk8L3A%2B&css=%%%'')) (lit ''html'') = Some v
                  \<and> decode_param v = Inl e)
           \<or> (\<exists>v e. URLSearchParams_get (URLSearchParams (lit ''?html=PHA%2BaGk8L3A%2B&css=%%%'')) (lit ''css'') = Some v
                  \<and> decode_param v = Inl e)
           \<or> (\<exists>v e. URLSearchParams_get (URLSearchParams (lit ''?html=PHA%2BaGk8L3A%2B&css=%%%'')) (lit ''js'') = Some v
                  \<and> decode_param v = Inl e)"
    by blast
  from corrupt_parameter_resets_all_buffers [OF this] h c decode_param_good decode_param_bad
  show ?thesis by blast
qed

text \<open>
  C6. A query string with none of the parameters \<open>html\<close>, \<open>css\<close>, \<open>js\<close> changes nothing:
  no buffer is decoded and the \<open>catch\<close> block is not run, so whatever state the effect
  starts from is the state it ends with; started from the initial state, the three
  buffers hold the default template.
\<close>

theorem no_parameters_no_decoding:
  assumes "URLSearchParams_get (URLSearchParams search) (lit ''html'') = None"
    and "URLSearchParams_get (URLSearchParams search) (lit ''css'') = None"
    and "URLSearchParams_get (URLSearchParams search) (lit ''js'') = None"
  shows "url_effect search st = st
         \<and> htmlCode (url_effect search initial_state) = Str TEMPLATES_default_html
         \<and> cssCode (url_effect search initial_state) = Str TEMPLATES_default_css
         \<and> jsCode (url_effect search initial_state) = Str TEMPLATES_default_js"
  using assms by (simp add: url_effect_def decode_params_def truthy_def initial_state_def)

theorem no_parameters_no_decoding_witness:
  "URLSearchParams_get (URLSearchParams (lit ''?theme=dark&htm=x'')) (lit ''html'') = None
   \<and> URLSearchParams_get (URLSearchParams (lit ''?theme=dark&htm=x'')) (lit ''css'') = None
   \<and> URLSearchParams_get (URLSearchParams (lit ''?theme=dark&htm=x'')) (lit ''js'') = None
   \<and> url_effect (lit ''?theme=dark&htm=x'')
        \<lparr>htmlCode = Str (lit ''a''), cssCode = Str (lit ''b''), jsCode = Undefined, srcDoc = []\<rparr>
       = \<lparr>htmlCode = Str (lit ''a''), cssCode = Str (lit ''b''), jsCode = Undefined, srcDoc = []\<rparr>
   \<and> htmlCode (url_effect (lit ''?theme=dark&htm=x'') initial_state) = Str TEMPLATES_default_html
   \<and> cssCode (url_effect (lit ''?theme=dark&htm=x'') initial_state) = Str TEMPLATES_default_css
   \<and> jsCode (url_effect (lit ''?theme=dark&htm=x'') initial_state) = Str TEMPLATES_default_js"
proof -
  have p: "URLSearchParams (lit ''?theme=dark&htm=x'')
             = [(lit ''theme'', lit ''dark''), (lit ''htm'', lit ''x'')]"
    by (simp add: parse_eval)
  have h: "URLSearchParams_get (URLSearchParams (lit ''?theme=dark&htm=x'')) (lit ''html'') = None"
    unfolding p URLSearchParams_get_def by (simp add: lit_def)
  have c: "URLSearchParams_get (URLSearchParams (lit ''?theme=dark&htm=x'')) (lit ''css'') = None"
    unfolding p URLSearchParams_get_def by (simp add: lit_def)
  have j: "URLSearchParams_get (URLSearchParams (lit ''?theme=dark&htm=x'')) (lit ''js'') = None"
    unfolding p URLSearchParams_get_def by (simp add: lit_def)
  from no_parameters_no_decoding [OF h c j] h c j show ?thesis by blast
qed

lemma set_from_param_no_throw:
  assumes "\<forall>v. p = Some v \<longrightarrow> (\<exists>s. decode_param v = Inr s)"
  shows "set_from_param p setter st = Inr (set_if_truthy p setter st)"
  using assms by (cases p) (auto simp: set_from_param_def set_if_truthy_def truthy_def)

lemma set_if_truthy_falsy: "\<not> truthy p \<Longrightarrow> set_if_truthy p setter st = st"
  by (cases p) (auto simp: set_if_truthy_def truthy_def)

lemma decode_params_no_throw:
  assumes "\<forall>v. urlHtml = Some v \<longrightarrow> (\<exists>s. decode_param v = Inr s)"
    and "\<forall>v. urlCss = Some v \<longrightarrow> (\<exists>s. decode_param v = Inr s)"
    and "\<forall>v. urlJs = Some v \<longrightarrow> (\<exists>s. decode_param v = Inr s)"
  shows "decode_params urlHtml urlCss urlJs st =
           set_if_truthy urlJs setJsCode
             (set_if_truthy urlCss setCssCode (set_if_truthy urlHtml setHtmlCode st))"
  by (simp add: decode_params_def set_from_param_no_throw [OF assms(1)]
      set_from_param_no_throw [OF assms(2)] set_from_param_no_throw [OF assms(3)]
      set_if_truthy_falsy)

lemma set_if_truthy_fields:
  "htmlCode (set_if_truthy p setCssCode st) = htmlCode st"
  "htmlCode (set_if_truthy p setJsCode st) = htmlCode st"
  "cssCode (set_if_truthy p setHtmlCode st) = cssCode st"
  "cssCode (set_if_truthy p setJsCode st) = cssCode st"
  "jsCode (set_if_truthy p setHtmlCode st) = jsCode st"
  "jsCode (set_if_truthy p setCssCode st) = jsCode st"
  "srcDoc (set_if_truthy p setHtmlCode st) = srcDoc st"
  "srcDoc (set_if_truthy p setCssCode st) = srcDoc st"
  "srcDoc (set_if_truthy p setJsCode st) = srcDoc st"
  by (auto simp: set_if_truthy_def setters split: option.splits sum.splits)

lemma set_if_truthy_absent [simp]: "set_if_truthy None setter st = st"
  by (simp add: set_if_truthy_def)

lemma set_if_truthy_own:
  "v \<noteq> [] \<Longrightarrow> decode_param v = Inr s \<Longrightarrow> htmlCode (set_if_truthy (Some v) setHtmlCode st) = Str s"
  "v \<noteq> [] \<Longrightarrow> decode_param v = Inr s \<Longrightarrow> cssCode (set_if_truthy (Some v) setCssCode st) = Str s"
  "v \<noteq> [] \<Longrightarrow> decode_param v = Inr s \<Longrightarrow> jsCode (set_if_truthy (Some v) setJsCode st) = Str s"
  by (simp_all add: set_if_truthy_def setters)

text \<open>
  C8. When at least one of the three parameters is present and no present parameter
  throws, a buffer whose parameter is absent keeps the value it had before the effect (so
  only buffers of present parameters are written), a non-empty parameter sets its buffer
  to the decoded text, and the composed document is not touched.
\<close>

theorem decode_overwrites_only_present_parameters:
  assumes "URLSearchParams_get (URLSearchParams search) (lit ''html'') = urlHtml"
    and "URLSearchParams_get (URLSearchParams search) (lit ''css'') = urlCss"
    and "URLSearchParams_get (URLSearchParams search) (lit ''js'') = urlJs"
    and "urlHtml \<noteq> None \<or> urlCss \<noteq> None \<or> urlJs \<noteq> None"
    and "\<forall>v. urlHtml = Some v \<longrightarrow> (\<exists>s. decode_param v = Inr s)"
    and "\<forall>v. urlCss = Some v \<longrightarrow> (\<exists>s. decode_param v = Inr s)"
    and "\<forall>v. urlJs = Some v \<longrightarrow> (\<exists>s. decode_param v = Inr s)"
  shows "(urlHtml = None \<longrightarrow> htmlCode (url_effect search st) = htmlCode st)
         \<and> (urlCss = None \<longrightarrow> cssCode (url_effect search st) = cssCode st)
         \<and> (urlJs = None \<longrightarrow> jsCode (url_effect search st) = jsCode st)
         \<and> (\<forall>v s. urlHtml = Some v \<and> v \<noteq> [] \<and> decode_param v = Inr s
                \<longrightarrow> htmlCode (url_effect search st) = Str s)
         \<and> (\<forall>v s. urlCss = Some v \<and> v \<noteq> [] \<and> decode_param v = Inr s
                \<longrightarrow> cssCode (url_effect search st) = Str s)
         \<and> (\<forall>v s. urlJs = Some v \<and> v \<noteq> [] \<and> decode_param v = Inr s
                \<longrightarrow> jsCode (url_effect search st) = Str s)
         \<and> srcDoc (url_effect search st) = srcDoc st"
proof -
  have e: "url_effect search st =
             set_if_truthy urlJs setJsCode
               (set_if_truthy urlCss setCssCode (set_if_truthy urlHtml setHtmlCode st))"
    using assms(1-3) decode_params_no_throw [OF assms(5-7)]
    by (simp add: url_effect_def)
  show ?thesis
    unfolding e by (auto simp: set_if_truthy_fields set_if_truthy_own)
qed

lemma search_css_only:
  "URLSearchParams (lit ''?css=cHtjb2xvcjpyZWR9'') = [(lit ''css'', lit ''cHtjb2xvcjpyZWR9'')]"
  by (simp add: parse_eval)

lemma decode_param_css: "decode_param (lit ''cHtjb2xvcjpyZWR9'') = Inr (lit ''p{color:red}'')"
  by (simp add: decode_param_def prepend_def base64_eval)

theorem decode_overwrites_only_present_parameters_witness:
  "htmlCode (url_effect (lit ''?css=cHtjb2xvcjpyZWR9'') initial_state) = Str TEMPLATES_default_html
   \<and> cssCode (url_effect (lit ''?css=cHtjb2xvcjpyZWR9'') initial_state) = Str (lit ''p{color:red}'')
   \<and> jsCode (url_effect (lit ''?css=cHtjb2xvcjpyZWR9'') initial_state) = Str TEMPLATES_default_js
   \<and> srcDoc (url_effect (lit ''?css=cHtjb2xvcjpyZWR9'') initial_state) = []"
proof -
  have h: "URLSearchParams_get (URLSearchParams (lit ''?css=cHtjb2xvcjpyZWR9'')) (lit ''html'') = None"
    unfolding search_css_only URLSearchParams_get_def by (simp add: lit_def)
  have c: "URLSearchParams_get (URLSearchParams (lit ''?css=cHtjb2xvcjpyZWR9'')) (lit ''css'')
             = Some (lit ''cHtjb2xvcjpyZWR9'')"
    unfolding search_css_only URLSearchParams_get_def by (simp add: lit_def)
  have j: "URLSearchParams_get (URLSearchParams (lit ''?css=cHtjb2xvcjpyZWR9'')) (lit ''js'') = None"
    unfolding search_css_only URLSearchParams_get_def by (simp add: lit_def)
  have ne: "lit ''cHtjb2xvcjpyZWR9'' \<noteq> []"
    by (simp add: lit_def)
  have "(None :: jsstring option) \<noteq> None \<or> Some (lit ''cHtjb2xvcjpyZWR9'') \<noteq> None
          \<or> (None :: jsstring option) \<noteq> None"
    by simp
  from decode_overwrites_only_present_parameters [OF h c j this, of initial_state]
    decode_param_css ne
  show ?thesis by (simp add: initial_state_def)
qed

lemma set_from_param_empty_fun: "set_from_param (Some []) = set_from_param None"
  by (intro ext) simp

lemma truthy_empty: "truthy (Some []) = truthy None"
  by (simp add: truthy_def)

text \<open>
  C10. A parameter that is present with an empty value is handled exactly as an absent
  one: the effect gives the same state for \<open>Some []\<close> as for \<open>None\<close>, in each of the three
  positions. The query \<open>?html=&css=&js=\<close> therefore changes no buffer; started from the
  initial state the buffers hold the default template, which is not the empty string.
\<close>

theorem empty_parameter_is_treated_as_absent:
  "decode_params (Some []) urlCss urlJs st = decode_params None urlCss urlJs st
   \<and> decode_params urlHtml (Some []) urlJs st = decode_params urlHtml None urlJs st
   \<and> decode_params urlHtml urlCss (Some []) st = decode_params urlHtml urlCss None st
   \<and> URLSearchParams (lit ''?html=&css=&js='') = [(lit ''html'', []), (lit ''css'', []), (lit ''js'', [])]
   \<and> url_effect (lit ''?html=&css=&js='') st = st
   \<and> htmlCode (url_effect (lit ''?html=&css=&js='') initial_state) = Str TEMPLATES_default_html
   \<and> cssCode (url_effect (lit ''?html=&css=&js='') initial_state) = Str TEMPLATES_default_css
   \<and> jsCode (url_effect (lit ''?html=&css=&js='') initial_state) = Str TEMPLATES_default_js
   \<and> TEMPLATES_default_html \<noteq> [] \<and> TEMPLATES_default_css \<noteq> [] \<and> TEMPLATES_default_js \<noteq> []"
proof -
  have p: "URLSearchParams (lit ''?html=&css=&js='')
             = [(lit ''html'', []), (lit ''css'', []), (lit ''js'', [])]"
    by (simp add: parse_eval)
  have e: "url_effect (lit ''?html=&css=&js='') s = s" for s
    unfolding url_effect_def p URLSearchParams_get_def
    by (simp add: lit_def decode_params_def truthy_def)
  have d: "decode_params (Some []) urlCss urlJs st = decode_params None urlCss urlJs st"
    "decode_params urlHtml (Some []) urlJs st = decode_params urlHtml None urlJs st"
    "decode_params urlHtml urlCss (Some []) st = decode_params urlHtml urlCss None st"
    unfolding decode_params_def set_from_param_empty_fun truthy_empty by (rule refl)+
  have n: "TEMPLATES_default_html \<noteq> []" "TEMPLATES_default_css \<noteq> []" "TEMPLATES_default_js \<noteq> []"
    by (simp_all add: TEMPLATES_default_html_def TEMPLATES_default_css_def
        TEMPLATES_default_js_def lit_def)
  show ?thesis
    using p d n by (simp add: e initial_state_def)
qed

section \<open>The template loader\<close>

lemma loadTemplate_declined: "loadTemplate templateName False st = st"
  by (simp add: loadTemplate_def split: property.splits)

lemma loadTemplate_unknown:
  assumes "map_of TEMPLATES templateName = None" and "templateName \<notin> set Object_prototype_names"
  shows "loadTemplate templateName confirmed st = st"
  using assms by (simp add: loadTemplate_def TEMPLATES_lookup_def)

lemma loadTemplate_accepted:
  assumes "map_of TEMPLATES templateName = Some t"
  shows "loadTemplate templateName True st
           = st\<lparr>htmlCode := Str (html t), cssCode := Str (css t), jsCode := Str (js t)\<rparr>"
proof -
  have "map_of TEMPLATES [] = None"
    by (simp add: TEMPLATES_def lit_def)
  with assms have "templateName \<noteq> []" by auto
  with assms show ?thesis
    by (simp add: loadTemplate_def TEMPLATES_lookup_def setters)
qed

lemma select_values_not_inherited:
  assumes "templateName \<in> set template_select_values"
  shows "templateName \<notin> set Object_prototype_names"
proof -
  from assms have "templateName = [] \<or> templateName = lit ''default''
      \<or> templateName = lit ''simpleCard'' \<or> templateName = lit ''flexboxExample''"
    by (simp add: template_select_values_def TEMPLATES_def)
  then show ?thesis
    by (elim disjE) (simp_all add: Object_prototype_names_def lit_def)
qed

text \<open>
  \<open>TEMPLATES[templateName]\<close> also finds the twelve members that the object literal
  inherits from \<open>Object.prototype\<close>; for such a name, with the confirmation accepted,
  \<open>loadTemplate\<close> would set the three buffers to \<open>undefined\<close>. The selector, the only caller
  of \<open>loadTemplate\<close>, never passes such a name.
\<close>

lemma loadTemplate_inherited_name:
  "loadTemplate (lit ''constructor'') True initial_state
     = \<lparr>htmlCode = Undefined, cssCode = Undefined, jsCode = Undefined, srcDoc = []\<rparr>"
  by (simp add: loadTemplate_def TEMPLATES_lookup_def TEMPLATES_def Object_prototype_names_def
      lit_def setters initial_state_def)

text \<open>
  C5. For every template name that the selector can pass, and for every other name that
  is not a member inherited from \<open>Object.prototype\<close>: a name that is not a key of the registry
  changes nothing; a key of the registry changes nothing when the confirmation is
  declined; and when it is accepted the three buffers are set together to the markup,
  style and script of that template, the composed document being left alone.
\<close>

theorem loadTemplate_all_or_nothing:
  assumes "templateName \<in> set template_select_values
           \<or> templateName \<notin> set Object_prototype_names"
  shows "(map_of TEMPLATES templateName = None \<longrightarrow> loadTemplate templateName confirmed st = st)
         \<and> (map_of TEMPLATES templateName \<noteq> None \<longrightarrow> loadTemplate templateName False st = st)
         \<and> (\<forall>t. map_of TEMPLATES templateName = Some t \<longrightarrow>
                loadTemplate templateName True st
                  = st\<lparr>htmlCode := Str (html t), cssCode := Str (css t), jsCode := Str (js t)\<rparr>)"
proof -
  from assms have n: "templateName \<notin> set Object_prototype_names"
    using select_values_not_inherited by blast
  show ?thesis
    using loadTemplate_unknown [OF _ n] loadTemplate_declined loadTemplate_accepted
    by blast
qed

theorem loadTemplate_all_or_nothing_witness:
  "lit ''simpleCard'' \<in> set template_select_values
   \<and> loadTemplate (lit ''simpleCard'') False initial_state = initial_state
   \<and> loadTemplate (lit ''simpleCard'') True initial_state
       = \<lparr>htmlCode = Str TEMPLATES_simpleCard_html, cssCode = Str TEMPLATES_simpleCard_css,
          jsCode = Str TEMPLATES_simpleCard_js, srcDoc = []\<rparr>
   \<and> [] \<in> set template_select_values
   \<and> loadTemplate [] True initial_state = initial_state
   \<and> lit ''nosuch'' \<notin> set Object_prototype_names
   \<and> loadTemplate (lit ''nosuch'') True initial_state = initial_state"
proof -
  have s: "lit ''simpleCard'' \<in> set template_select_values"
    and e: "[] \<in> set template_select_values"
    by (simp_all add: template_select_values_def TEMPLATES_def lit_def)
  have u: "lit ''nosuch'' \<notin> set Object_prototype_names"
    by (simp add: Object_prototype_names_def lit_def)
  have ms: "map_of TEMPLATES (lit ''simpleCard'')
              = Some \<lparr>html = TEMPLATES_simpleCard_html, css = TEMPLATES_simpleCard_css,
                      js = TEMPLATES_simpleCard_js\<rparr>"
    and me: "map_of TEMPLATES [] = None"
    and mu: "map_of TEMPLATES (lit ''nosuch'') = None"
    by (simp_all add: TEMPLATES_def lit_def)
  from loadTemplate_all_or_nothing [of "lit ''simpleCard''" False initial_state] s ms
  have a: "loadTemplate (lit ''simpleCard'') False initial_state = initial_state"
    by simp
  from loadTemplate_all_or_nothing [of "lit ''simpleCard''" True initial_state] s ms
  have b: "loadTemplate (lit ''simpleCard'') True initial_state
             = \<lparr>htmlCode = Str TEMPLATES_simpleCard_html, cssCode = Str TEMPLATES_simpleCard_css,
                jsCode = Str TEMPLATES_simpleCard_js, srcDoc = []\<rparr>"
    by (simp add: initial_state_def)
  from loadTemplate_all_or_nothing [of "[]" True initial_state] e me
  have c: "loadTemplate [] True initial_state = initial_state"
    by simp
  from loadTemplate_all_or_nothing [of "lit ''nosuch''" True initial_state] u mu
  have d: "loadTemplate (lit ''nosuch'') True initial_state = initial_state"
    by simp
  from s e u a b c d show ?thesis by blast
qed

section \<open>Base64: decoding inverts encoding\<close>

lemma length_b64_alphabet: "length b64_alphabet = 64"
  by (simp add: b64_alphabet_def lit_def)

lemma distinct_b64_alphabet: "distinct b64_alphabet"
  by (simp add: b64_alphabet_def lit_def)

lemma index_of_nth: "distinct xs \<Longrightarrow> i < length xs \<Longrightarrow> index_of (xs ! i) xs = i"
proof (induction xs arbitrary: i)
  case Nil
  then show ?case by simp
next
  case (Cons x xs)
  show ?case
  proof (cases i)
    case 0
    then show ?thesis by simp
  next
    case (Suc k)
    with Cons.prems have "xs ! k \<in> set xs" "x \<notin> set xs" by auto
    then have "xs ! k \<noteq> x" by auto
    with Suc Cons show ?thesis by auto
  qed
qed

lemma b64_char_in_alphabet: "b64_char n \<in> set b64_alphabet"
  by (simp add: b64_char_def length_b64_alphabet)

lemma is_b64_char_b64_char: "is_b64_char (b64_char n)"
  by (simp add: is_b64_char_def b64_char_in_alphabet)

lemma b64_value_b64_char: "n < 64 \<Longrightarrow> b64_value (b64_char n) = n"
  by (simp add: b64_value_def b64_char_def index_of_nth distinct_b64_alphabet length_b64_alphabet)

lemma b64_alphabet_not_special:
  assumes "c \<in> set b64_alphabet"
  shows "c \<noteq> b64_pad" and "\<not> is_ascii_whitespace c" and "c \<noteq> 0x25" and "c \<le> 0x7F"
  using assms by (auto simp: b64_alphabet_def lit_def b64_pad_def is_ascii_whitespace_def)

lemma b64_char_not_pad: "b64_char n \<noteq> b64_pad"
  using b64_alphabet_not_special(1) [OF b64_char_in_alphabet] .

lemma b64_char_not_whitespace: "\<not> is_ascii_whitespace (b64_char n)"
  using b64_alphabet_not_special(2) [OF b64_char_in_alphabet] .

lemma b64_pad_not_whitespace: "\<not> is_ascii_whitespace b64_pad"
  by (simp add: b64_pad_def is_ascii_whitespace_def)

lemma replicate_two: "replicate 2 x = [x, x]"
  by (simp add: numeral_2_eq_2)

lemma base64_encode_values:
  "base64_encode bs = map b64_char (base64_values bs) @ replicate (base64_padding bs) b64_pad"
proof (induction bs rule: base64_encode.induct)
  case 1
  show ?case by simp
next
  case (2 a)
  show ?case
    by (simp only: base64_encode.simps base64_values.simps base64_padding.simps Let_def
        list.map replicate_two append_Cons append_Nil)
next
  case (3 a b)
  show ?case
    by (simp only: base64_encode.simps base64_values.simps base64_padding.simps Let_def
        list.map replicate.simps One_nat_def append_Cons append_Nil)
next
  case (4 a b c rest)
  show ?case
    by (simp only: base64_encode.simps base64_values.simps base64_padding.simps Let_def
        list.map map_append 4 append_Cons append_Nil append_assoc)
qed

lemma byte_bound: "unat (a :: byte) < 256"
  using unsigned_less [of a, where ?'a = nat] by simp

lemma base64_values_bound: "v \<in> set (base64_values bs) \<Longrightarrow> v < 64"
proof (induction bs arbitrary: v rule: base64_values.induct)
  case 1
  then show ?case by simp
next
  case (2 a)
  have "unat a * 65536 div 262144 < 64" using byte_bound [of a] by simp
  moreover have "v = unat a * 65536 div 262144 \<or> v = unat a * 65536 div 4096 mod 64"
    using 2 by (simp only: base64_values.simps Let_def) simp
  ultimately show ?case by auto
next
  case (3 a b)
  have "(unat a * 65536 + unat b * 256) div 262144 < 64"
    using byte_bound [of a] byte_bound [of b] by simp
  moreover have "v = (unat a * 65536 + unat b * 256) div 262144
                 \<or> v = (unat a * 65536 + unat b * 256) div 4096 mod 64
                 \<or> v = (unat a * 65536 + unat b * 256) div 64 mod 64"
    using 3 by (simp only: base64_values.simps Let_def) simp
  ultimately show ?case by auto
next
  case (4 a b c rest)
  have "(unat a * 65536 + unat b * 256 + unat c) div 262144 < 64"
    using byte_bound [of a] byte_bound [of b] byte_bound [of c] by simp
  moreover have "v = (unat a * 65536 + unat b * 256 + unat c) div 262144
                 \<or> v = (unat a * 65536 + unat b * 256 + unat c) div 4096 mod 64
                 \<or> v = (unat a * 65536 + unat b * 256 + unat c) div 64 mod 64
                 \<or> v = (unat a * 65536 + unat b * 256 + unat c) mod 64
                 \<or> v \<in> set (base64_values rest)"
    using 4(2) by (simp only: base64_values.simps Let_def set_append) simp
  ultimately show ?case using 4(1) by auto
qed

lemma regroup2: "n div 262144 * 64 + n div 4096 mod 64 = (n::nat) div 4096"
proof -
  have a: "n div 262144 = n div 4096 div 64" by (simp add: div_mult2_eq)
  show ?thesis unfolding a by (rule div_mult_mod_eq)
qed

lemma regroup3: "(n div 262144 * 64 + n div 4096 mod 64) * 64 + n div 64 mod 64 = (n::nat) div 64"
proof -
  have b: "n div 4096 = n div 64 div 64" by (simp add: div_mult2_eq)
  have "n div 64 div 64 * 64 + n div 64 mod 64 = n div 64" by (rule div_mult_mod_eq)
  then show ?thesis unfolding regroup2 by (simp add: b)
qed

lemma regroup4:
  "((n div 262144 * 64 + n div 4096 mod 64) * 64 + n div 64 mod 64) * 64 + n mod 64 = (n::nat)"
  unfolding regroup3 by (rule div_mult_mod_eq)

lemma bytes3:
  fixes a b c :: nat
  assumes "a < 256" and "b < 256" and "c < 256"
  shows "(a * 65536 + b * 256 + c) div 65536 = a"
    and "(a * 65536 + b * 256 + c) div 256 mod 256 = b"
    and "(a * 65536 + b * 256 + c) mod 256 = c"
proof -
  have e: "a * 65536 + b * 256 + c = (a * 256 + b) * 256 + c" by simp
  show "(a * 65536 + b * 256 + c) div 65536 = a" using assms by simp
  have "((a * 256 + b) * 256 + c) div 256 = a * 256 + b"
    using assms(3) by (simp only: div_mult_self3 div_less)
  moreover have "(a * 256 + b) mod 256 = b"
    using assms(2) by (simp only: mod_mult_self3 mod_less)
  ultimately show "(a * 65536 + b * 256 + c) div 256 mod 256 = b"
    by (simp only: e)
  have "((a * 256 + b) * 256 + c) mod 256 = c"
    using assms(3) by (simp only: mod_mult_self3 mod_less)
  then show "(a * 65536 + b * 256 + c) mod 256 = c"
    by (simp only: e)
qed

lemma bytes2:
  fixes a b :: nat
  assumes "a < 256" and "b < 256"
  shows "(a * 65536 + b * 256) div 64 div 4 div 256 = a"
    and "(a * 65536 + b * 256) div 64 div 4 mod 256 = b"
proof -
  have "(a * 65536 + b * 256) div 64 div 4 = (a * 65536 + b * 256) div 256"
    by (simp only: div_mult2_eq [symmetric]) simp
  moreover have "(a * 65536 + b * 256) div 256 = a * 256 + b"
    by simp
  ultimately have e: "(a * 65536 + b * 256) div 64 div 4 = a * 256 + b"
    by (rule trans)
  show "(a * 65536 + b * 256) div 64 div 4 div 256 = a"
    unfolding e using assms(2) by simp
  show "(a * 65536 + b * 256) div 64 div 4 mod 256 = b"
    unfolding e using assms(2) by (simp only: mod_mult_self3 mod_less)
qed

lemma bytes1: "a * 65536 div 4096 div 16 = (a::nat)"
proof -
  have "a * 65536 div 4096 div 16 = a * 65536 div 65536"
    by (simp only: div_mult2_eq [symmetric]) simp
  then show ?thesis by simp
qed

lemma decode_values_one:
  "base64_decode_values [n div 262144, n div 4096 mod 64] = [of_nat (n div 4096 div 16)]"
  by (simp only: base64_decode_values.simps regroup2)

lemma decode_values_two:
  "base64_decode_values [n div 262144, n div 4096 mod 64, n div 64 mod 64]
     = [of_nat (n div 64 div 4 div 256), of_nat (n div 64 div 4 mod 256)]"
  by (simp only: base64_decode_values.simps Let_def regroup3)

lemma decode_values_three:
  "base64_decode_values (n div 262144 # n div 4096 mod 64 # n div 64 mod 64 # n mod 64 # rest)
     = of_nat (n div 65536) # of_nat (n div 256 mod 256) # of_nat (n mod 256)
       # base64_decode_values rest"
  by (simp only: append_Cons append_Nil base64_decode_values.simps Let_def regroup4)

lemma base64_decode_values_inverse: "base64_decode_values (base64_values bs) = bs"
proof (induction bs rule: base64_values.induct)
  case 1
  show ?case by simp
next
  case (2 a)
  show ?case
    by (simp only: base64_values.simps Let_def decode_values_one bytes1 of_nat_unat ucast_id)
next
  case (3 a b)
  show ?case
    by (simp only: base64_values.simps Let_def decode_values_two
        bytes2 [OF byte_bound byte_bound] of_nat_unat ucast_id)
next
  case (4 a b c rest)
  show ?case
    by (simp only: base64_values.simps Let_def decode_values_three
        bytes3 [OF byte_bound byte_bound byte_bound] of_nat_unat ucast_id 4 append_Cons append_Nil)
qed

lemma mod4_Suc4: "Suc (Suc (Suc (Suc n))) mod 4 = n mod 4"
  by presburger

lemma base64_padding_cases:
  "(base64_padding bs = 0 \<and> length (base64_values bs) mod 4 = 0)
   \<or> (base64_padding bs = 1 \<and> length (base64_values bs) mod 4 = 3)
   \<or> (base64_padding bs = 2 \<and> length (base64_values bs) mod 4 = 2)"
  by (induction bs rule: base64_values.induct) (simp_all add: Let_def mod4_Suc4)

lemma strip_padding_padded:
  assumes nopad: "\<forall>x\<in>set xs. x \<noteq> b64_pad"
    and shape: "(k = 0 \<and> length xs mod 4 = 0) \<or> (k = 1 \<and> length xs mod 4 = 3)
                \<or> (k = 2 \<and> length xs mod 4 = 2)"
  shows "strip_padding (xs @ replicate k b64_pad) = xs"
proof -
  consider (zero) "k = 0" "length xs mod 4 = 0" | (one) "k = 1" "length xs mod 4 = 3"
    | (two) "k = 2" "length xs mod 4 = 2"
    using shape by auto
  then show ?thesis
  proof cases
    case zero
    show ?thesis
    proof (cases "rev xs")
      case Nil
      then show ?thesis using zero by (simp add: strip_padding_def)
    next
      case (Cons p r)
      then have "p \<in> set xs" by (metis list.set_intros(1) set_rev)
      with nopad have "p \<noteq> b64_pad" by blast
      with Cons zero show ?thesis
        by (simp add: strip_padding_def split: list.splits)
    qed
  next
    case one
    then have "xs \<noteq> []" by auto
    then obtain q r where r: "rev xs = q # r" by (cases "rev xs") auto
    then have "q \<in> set xs" by (metis list.set_intros(1) set_rev)
    with nopad have q: "q \<noteq> b64_pad" by blast
    have x: "xs = rev (q # r)" using r by (metis rev_rev_ident)
    have l: "length (xs @ replicate k b64_pad) mod 4 = 0"
      using one by (simp add: mod_Suc)
    have "rev (xs @ replicate k b64_pad) = b64_pad # q # r"
      using one r by simp
    then show ?thesis
      unfolding strip_padding_def using l q x by simp
  next
    case two
    have l: "length (xs @ replicate k b64_pad) mod 4 = 0"
      using two by (simp add: mod_Suc replicate_two)
    have "rev (xs @ replicate k b64_pad) = b64_pad # b64_pad # rev xs"
      using two by (simp add: replicate_two)
    then show ?thesis
      unfolding strip_padding_def using l by simp
  qed
qed

lemma atob_base64_encode: "atob (base64_encode bs) = Inr (map ucast bs)"
proof -
  let ?body = "map b64_char (base64_values bs)"
  have enc: "base64_encode bs = ?body @ replicate (base64_padding bs) b64_pad"
    by (rule base64_encode_values)
  have "\<forall>c\<in>set (base64_encode bs). \<not> is_ascii_whitespace c"
    unfolding enc by (auto simp: b64_char_not_whitespace b64_pad_not_whitespace)
  then have flt: "filter (\<lambda>c. \<not> is_ascii_whitespace c) (base64_encode bs) = base64_encode bs"
    by (simp add: filter_id_conv)
  have nopad: "\<forall>x\<in>set ?body. x \<noteq> b64_pad"
    by (auto simp: b64_char_not_pad)
  have shape: "(base64_padding bs = 0 \<and> length ?body mod 4 = 0)
               \<or> (base64_padding bs = 1 \<and> length ?body mod 4 = 3)
               \<or> (base64_padding bs = 2 \<and> length ?body mod 4 = 2)"
    using base64_padding_cases [of bs] by simp
  have strip: "strip_padding (base64_encode bs) = ?body"
    unfolding enc using nopad shape by (rule strip_padding_padded)
  have len: "length ?body mod 4 \<noteq> 1"
    using shape by auto
  have chars: "list_all is_b64_char ?body"
    by (simp add: list_all_iff is_b64_char_b64_char)
  have "map b64_value ?body = map (\<lambda>v. v) (base64_values bs)"
    unfolding map_map by (rule map_cong) (simp_all add: b64_value_b64_char base64_values_bound)
  then have vals: "map b64_value ?body = base64_values bs"
    by simp
  show ?thesis
    unfolding atob_def flt strip Let_def vals base64_decode_values_inverse
    using len chars by simp
qed

lemma ucast_byte_inverse: "c \<le> 0xFF \<Longrightarrow> ucast (ucast c :: byte) = (c :: code_unit)"
  by (simp add: word_unat_eq_iff unsigned_ucast_eq take_bit_eq_mod word_le_nat_alt unat_mod)

lemma btoa_single_byte:
  "list_all (\<lambda>c. c \<le> 0xFF) data \<Longrightarrow> btoa data = Inr (base64_encode (map ucast data))"
  by (simp add: btoa_def)

lemma btoa_throws:
  "\<not> list_all (\<lambda>c. c \<le> 0xFF) data \<Longrightarrow> btoa data = Inl InvalidCharacterError"
  by (simp add: btoa_def)

lemma atob_btoa:
  assumes "list_all (\<lambda>c. c \<le> 0xFF) data" and "btoa data = Inr b"
  shows "atob b = Inr data"
proof -
  from assms have b: "b = base64_encode (map ucast data)"
    by (simp add: btoa_def)
  have "map ucast (map ucast data :: byte list) = data"
    using assms(1) by (induction data) (simp_all add: ucast_byte_inverse)
  then show ?thesis
    unfolding b atob_base64_encode by simp
qed

lemma base64_encode_empty_iff: "base64_encode bs = [] \<longleftrightarrow> bs = []"
  by (induction bs rule: base64_encode.induct) (simp_all add: Let_def)

section \<open>Percent-encoding of base64 text\<close>

lemma ascii_not_surrogate:
  assumes "c \<le> 0x7F"
  shows "\<not> is_lead_surrogate c" and "\<not> is_trail_surrogate c"
  using assms by (auto simp: is_lead_surrogate_def is_trail_surrogate_def word_le_nat_alt)

lemma encodeURIComponent_ascii:
  "list_all (\<lambda>c. c \<le> 0x7F) s \<Longrightarrow> encodeURIComponent s = Inr (concat (map uri_escape s))"
  by (induction s) (simp_all add: ascii_not_surrogate uri_escape_def prepend_def)

lemma base64_char_escape:
  assumes "x \<in> set b64_alphabet \<or> x = b64_pad"
  shows "(uri_escape x = [x] \<and> is_param_char x \<and> x \<noteq> 0x25)
         \<or> (x = 0x2B \<and> uri_escape x = [0x25, 0x32, 0x42])
         \<or> (x = 0x2F \<and> uri_escape x = [0x25, 0x32, 0x46])
         \<or> (x = 0x3D \<and> uri_escape x = [0x25, 0x33, 0x44])"
  using assms unfolding b64_alphabet_def b64_pad_def lit_def
  by (simp, elim disjE)
     (simp_all add: uri_escape_def uri_unescaped_def is_param_char_def lit_def percent_bytes_def
        percent_byte_def utf8_encode_cp_def hex_digits_def)

lemma param_char_conj:
  assumes "is_param_char c"
  shows "c \<le> 0x7F \<and> c \<noteq> 0x26 \<and> c \<noteq> 0x23 \<and> c \<noteq> 0x3F \<and> c \<noteq> 0x3D \<and> c \<noteq> 0x2B
         \<and> (ucast c :: byte) \<noteq> 0x26 \<and> (ucast c :: byte) \<noteq> 0x2B
         \<and> (c = 0x25 \<or> (ucast c :: byte) \<noteq> 0x25)"
  using assms unfolding is_param_char_def lit_def
  by (simp, elim disjE) simp_all

lemma param_chars_escape:
  assumes "x \<in> set b64_alphabet \<or> x = b64_pad"
  shows "list_all is_param_char (uri_escape x)"
  using base64_char_escape [OF assms]
  by (elim disjE conjE) (simp_all add: is_param_char_def lit_def)

lemma param_chars_escaped_text:
  "is_base64_text b \<Longrightarrow> list_all is_param_char (concat (map uri_escape b))"
  by (induction b) (simp_all add: is_base64_text_def param_chars_escape)

lemma escaped_text_empty_iff:
  assumes "is_base64_text b"
  shows "concat (map uri_escape b) = [] \<longleftrightarrow> b = []"
proof (cases b)
  case Nil
  then show ?thesis by simp
next
  case (Cons x xs)
  with assms have "x \<in> set b64_alphabet \<or> x = b64_pad"
    by (simp add: is_base64_text_def)
  from base64_char_escape [OF this] have "uri_escape x \<noteq> []" by auto
  with Cons show ?thesis by simp
qed

lemma base64_text_member:
  assumes "is_base64_text b" and "x \<in> set b"
  shows "x \<in> set b64_alphabet \<or> x = b64_pad"
  using assms by (simp add: is_base64_text_def list_all_iff)

lemma base64_text_ascii: "is_base64_text b \<Longrightarrow> list_all (\<lambda>c. c \<le> 0x7F) b"
proof -
  assume b: "is_base64_text b"
  have "x \<le> 0x7F" if "x \<in> set b" for x
  proof -
    from base64_text_member [OF b that] show ?thesis
    proof
      assume "x \<in> set b64_alphabet"
      then show ?thesis by (rule b64_alphabet_not_special(4))
    next
      assume "x = b64_pad"
      then show ?thesis by (simp add: b64_pad_def)
    qed
  qed
  then show ?thesis by (simp add: list_all_iff)
qed

lemma is_base64_text_encode: "is_base64_text (base64_encode bs)"
  unfolding base64_encode_values is_base64_text_def list_all_iff
  by (auto simp: b64_char_in_alphabet)

lemma decodeURIComponent_escaped_text:
  "is_base64_text b \<Longrightarrow> decodeURIComponent (concat (map uri_escape b)) = Inr b"
proof (induction b)
  case Nil
  then show ?case by simp
next
  case (Cons x xs)
  then have x: "x \<in> set b64_alphabet \<or> x = b64_pad" and xs: "is_base64_text xs"
    by (simp_all add: is_base64_text_def)
  have ih: "decodeURIComponent (concat (map uri_escape xs)) = Inr xs"
    using Cons.IH xs by simp
  from base64_char_escape [OF x] show ?case
    by (elim disjE conjE)
       (simp_all add: ih prepend_def hex_value_def leading_ones_def)
qed

lemma decodeURIComponent_plain: "0x25 \<notin> set b \<Longrightarrow> decodeURIComponent b = Inr b"
  by (induction b) (simp_all add: prepend_def)

lemma base64_text_no_percent:
  assumes "is_base64_text b"
  shows "0x25 \<notin> set b"
proof
  assume "0x25 \<in> set b"
  from base64_text_member [OF assms this] show False
  proof
    assume "0x25 \<in> set b64_alphabet"
    from b64_alphabet_not_special(3) [OF this] show False by simp
  next
    assume "0x25 = b64_pad"
    then show False by (simp add: b64_pad_def)
  qed
qed

lemma percent_decode_escaped_text:
  "is_base64_text b \<Longrightarrow>
     percent_decode (plus_to_space (map ucast (concat (map uri_escape b)))) = map ucast b"
proof (induction b)
  case Nil
  then show ?case by (simp add: plus_to_space_def)
next
  case (Cons x xs)
  then have x: "x \<in> set b64_alphabet \<or> x = b64_pad" and xs: "is_base64_text xs"
    by (simp_all add: is_base64_text_def)
  have ih: "percent_decode (plus_to_space (map ucast (concat (map uri_escape xs)))) = map ucast xs"
    using Cons.IH xs by simp
  from base64_char_escape [OF x] show ?case
  proof (elim disjE conjE)
    assume e: "uri_escape x = [x]" and p: "is_param_char x" and n: "x \<noteq> 0x25"
    have "(ucast x :: byte) \<noteq> 0x2B" "(ucast x :: byte) \<noteq> 0x25"
      using param_char_conj [OF p] n by simp_all
    then show ?thesis
      using ih by (simp add: e plus_to_space_def)
  next
    assume "x = 0x2B" and e: "uri_escape x = [0x25, 0x32, 0x42]"
    then show ?thesis
      using ih by (simp add: plus_to_space_def hex_value_def)
  next
    assume "x = 0x2F" and e: "uri_escape x = [0x25, 0x32, 0x46]"
    then show ?thesis
      using ih by (simp add: plus_to_space_def hex_value_def)
  next
    assume "x = 0x3D" and e: "uri_escape x = [0x25, 0x33, 0x44]"
    then show ?thesis
      using ih by (simp add: plus_to_space_def hex_value_def)
  qed
qed

lemma ucast_ascii_byte: "c \<le> 0x7F \<Longrightarrow> (ucast (c :: code_unit) :: byte) \<le> 0x7F"
  by (simp add: word_le_nat_alt unsigned_ucast_eq take_bit_eq_mod unat_mod)

lemma utf8_decode_ascii:
  "list_all (\<lambda>b. b \<le> 0x7F) bs \<Longrightarrow> utf8_decode 0 0 0x80 0xBF bs = map unat bs"
  by (induction bs) simp_all

lemma utf8_decode_without_BOM_ascii:
  assumes "list_all (\<lambda>b. b \<le> 0x7F) bs"
  shows "utf8_decode_without_BOM bs = map ucast bs"
proof -
  have "concat (map UTF16EncodeCodePoint (map unat cs)) = map ucast cs" for cs :: "byte list"
  proof (induction cs)
    case Nil
    show ?case by simp
  next
    case (Cons c cs)
    have "unat c \<le> 0xFFFF" using byte_bound [of c] by simp
    then show ?case using Cons by (simp add: UTF16EncodeCodePoint_def)
  qed
  then show ?thesis
    by (simp add: utf8_decode_without_BOM_def utf8_decode_ascii [OF assms])
qed

lemma ucast_ascii_text:
  "list_all (\<lambda>c. c \<le> 0x7F) s \<Longrightarrow> map ucast (map ucast s :: byte list) = (s :: jsstring)"
proof (induction s)
  case Nil
  show ?case by simp
next
  case (Cons c s)
  then have "c \<le> 0x7F" by simp
  then have "c \<le> 0xFF" by (simp add: word_le_nat_alt)
  then show ?case using Cons by (simp add: ucast_byte_inverse)
qed

lemma urlencoded_field_escaped_text:
  assumes "is_base64_text b"
  shows "urlencoded_field (map ucast (concat (map uri_escape b))) = b"
proof -
  have a: "list_all (\<lambda>c. c \<le> 0x7F) b"
    using assms by (rule base64_text_ascii)
  then have "list_all (\<lambda>c. c \<le> 0x7F) (map ucast b :: byte list)"
    by (simp add: list_all_iff ucast_ascii_byte)
  then have "utf8_decode_without_BOM (map ucast b) = map ucast (map ucast b :: byte list)"
    by (rule utf8_decode_without_BOM_ascii)
  then show ?thesis
    unfolding urlencoded_field_def percent_decode_escaped_text [OF assms]
    by (simp only: ucast_ascii_text [OF a])
qed

lemma utf8_encode_ascii: "list_all (\<lambda>c. c \<le> 0x7F) s \<Longrightarrow> utf8_encode s = map ucast s"
proof (induction s)
  case Nil
  show ?case by simp
next
  case (Cons c s)
  then have c: "c \<le> 0x7F" by simp
  then have "unat c < 0x80" by (simp add: word_le_nat_alt)
  then show ?case
    using Cons c by (simp add: ascii_not_surrogate utf8_encode_cp_def)
qed

section \<open>Parsing the query of a share URL\<close>

lemma split_on_no_separator: "sep \<notin> set xs \<Longrightarrow> split_on sep xs = [xs]"
  by (induction xs) auto

lemma split_on_append:
  "sep \<notin> set xs \<Longrightarrow> split_on sep (xs @ sep # ys) = xs # split_on sep ys"
  by (induction xs) auto

lemma param_chars_bytes:
  assumes "list_all is_param_char e"
  shows "0x26 \<notin> set (map ucast e :: byte list)"
    and "list_all (\<lambda>c. c \<le> 0x7F) e" and "0x23 \<notin> set e"
proof -
  have p: "is_param_char c" if "c \<in> set e" for c
    using assms that by (simp add: list_all_iff)
  show "0x26 \<notin> set (map ucast e :: byte list)"
    using p param_char_conj by fastforce
  show "list_all (\<lambda>c. c \<le> 0x7F) e"
    using p param_char_conj by (simp add: list_all_iff)
  show "0x23 \<notin> set e"
    using p param_char_conj by blast
qed

lemma name_value_html:
  "name_value ([0x68, 0x74, 0x6D, 0x6C, 0x3D] @ E) = (lit ''html'', urlencoded_field E)"
proof -
  have "urlencoded_field [0x68, 0x74, 0x6D, 0x6C] = lit ''html''"
    by (simp add: parse_eval)
  then show ?thesis by (simp add: name_value_def)
qed

lemma name_value_css:
  "name_value ([0x63, 0x73, 0x73, 0x3D] @ E) = (lit ''css'', urlencoded_field E)"
proof -
  have "urlencoded_field [0x63, 0x73, 0x73] = lit ''css''"
    by (simp add: parse_eval)
  then show ?thesis by (simp add: name_value_def)
qed

lemma name_value_js:
  "name_value ([0x6A, 0x73, 0x3D] @ E) = (lit ''js'', urlencoded_field E)"
proof -
  have "urlencoded_field [0x6A, 0x73] = lit ''js''"
    by (simp add: parse_eval)
  then show ?thesis by (simp add: name_value_def)
qed

lemma urlencoded_parse_share_query:
  fixes E1 E2 E3 :: "byte list"
  assumes "0x26 \<notin> set E1" and "0x26 \<notin> set E2" and "0x26 \<notin> set E3"
  shows "urlencoded_parse
           (([0x68, 0x74, 0x6D, 0x6C, 0x3D] @ E1) @ 0x26 # ([0x63, 0x73, 0x73, 0x3D] @ E2)
              @ 0x26 # ([0x6A, 0x73, 0x3D] @ E3))
         = [(lit ''html'', urlencoded_field E1), (lit ''css'', urlencoded_field E2),
            (lit ''js'', urlencoded_field E3)]"
proof -
  have s1: "0x26 \<notin> set ([0x68, 0x74, 0x6D, 0x6C, 0x3D] @ E1)"
    using assms(1) by simp
  have s2: "0x26 \<notin> set ([0x63, 0x73, 0x73, 0x3D] @ E2)"
    using assms(2) by simp
  have s3: "0x26 \<notin> set ([0x6A, 0x73, 0x3D] @ E3)"
    using assms(3) by simp
  have "split_on 0x26
          (([0x68, 0x74, 0x6D, 0x6C, 0x3D] @ E1) @ 0x26 # ([0x63, 0x73, 0x73, 0x3D] @ E2)
             @ 0x26 # ([0x6A, 0x73, 0x3D] @ E3))
        = [[0x68, 0x74, 0x6D, 0x6C, 0x3D] @ E1, [0x63, 0x73, 0x73, 0x3D] @ E2,
           [0x6A, 0x73, 0x3D] @ E3]"
    by (simp only: split_on_append [OF s1] split_on_append [OF s2] split_on_no_separator [OF s3])
  then show ?thesis
    unfolding urlencoded_parse_def
    by (simp add: name_value_html [simplified] name_value_css [simplified]
        name_value_js [simplified])
qed

lemma URLSearchParams_share_query:
  assumes "list_all is_param_char e1" and "list_all is_param_char e2"
    and "list_all is_param_char e3"
  shows "URLSearchParams (lit ''?html='' @ e1 @ lit ''&css='' @ e2 @ lit ''&js='' @ e3)
         = [(lit ''html'', urlencoded_field (map ucast e1)),
            (lit ''css'', urlencoded_field (map ucast e2)),
            (lit ''js'', urlencoded_field (map ucast e3))]"
proof -
  let ?q = "lit ''html='' @ e1 @ lit ''&css='' @ e2 @ lit ''&js='' @ e3"
  have ascii: "list_all (\<lambda>c. c \<le> 0x7F) ?q"
    using param_chars_bytes(2) [OF assms(1)] param_chars_bytes(2) [OF assms(2)]
      param_chars_bytes(2) [OF assms(3)]
    by (simp add: lit_def)
  have q: "lit ''?html='' @ e1 @ lit ''&css='' @ e2 @ lit ''&js='' @ e3 = 0x3F # ?q"
    by (simp add: lit_def)
  have bytes: "map ucast ?q =
                 (([0x68, 0x74, 0x6D, 0x6C, 0x3D] @ map ucast e1) @ 0x26
                    # ([0x63, 0x73, 0x73, 0x3D] @ map ucast e2)
                    @ 0x26 # ([0x6A, 0x73, 0x3D] @ map ucast e3) :: byte list)"
    by (simp add: lit_def)
  show ?thesis
    unfolding q URLSearchParams_def
    by (simp only: list.case simp_thms if_True utf8_encode_ascii [OF ascii] bytes
        urlencoded_parse_share_query [OF param_chars_bytes(1) [OF assms(1)]
          param_chars_bytes(1) [OF assms(2)] param_chars_bytes(1) [OF assms(3)]])
qed

lemma location_search_share_url:
  assumes "0x3F \<notin> set origin" and "0x23 \<notin> set origin" and "list_all is_param_char e1"
    and "list_all is_param_char e2" and "list_all is_param_char e3"
  shows "location_search (origin @ lit ''/?html='' @ e1 @ lit ''&css='' @ e2 @ lit ''&js='' @ e3)
         = lit ''?html='' @ e1 @ lit ''&css='' @ e2 @ lit ''&js='' @ e3"
proof -
  let ?r = "lit ''html='' @ e1 @ lit ''&css='' @ e2 @ lit ''&js='' @ e3"
  have u: "origin @ lit ''/?html='' @ e1 @ lit ''&css='' @ e2 @ lit ''&js='' @ e3
           = (origin @ [0x2F]) @ 0x3F # ?r"
    by (simp add: lit_def)
  have v: "lit ''?html='' @ e1 @ lit ''&css='' @ e2 @ lit ''&js='' @ e3 = 0x3F # ?r"
    by (simp add: lit_def)
  have "0x23 \<notin> set ((origin @ [0x2F]) @ 0x3F # ?r)"
    using assms(2) param_chars_bytes(3) [OF assms(3)] param_chars_bytes(3) [OF assms(4)]
      param_chars_bytes(3) [OF assms(5)]
    by (simp add: lit_def)
  then have "\<forall>x\<in>set ((origin @ [0x2F]) @ 0x3F # ?r). x \<noteq> 0x23"
    by blast
  then have t: "takeWhile (\<lambda>c. c \<noteq> 0x23) ((origin @ [0x2F]) @ 0x3F # ?r)
                = (origin @ [0x2F]) @ 0x3F # ?r"
    by (rule iffD2 [OF takeWhile_eq_all_conv])
  have "\<forall>x\<in>set (origin @ [0x2F]). x \<noteq> 0x3F"
    using assms(1) by auto
  then have d: "dropWhile (\<lambda>c. c \<noteq> 0x3F) ((origin @ [0x2F]) @ 0x3F # ?r) = 0x3F # ?r"
    by (simp add: dropWhile_append)
  have l: "\<not> length (0x3F # ?r) \<le> 1"
    by (simp add: lit_def)
  show ?thesis
    unfolding u v location_search_def t d Let_def using l by simp
qed

section \<open>Origins and absolute URLs\<close>

lemma scheme_chars:
  assumes "is_scheme sch" and "c \<in> set sch"
  shows "c \<noteq> 0x3A" and "c \<noteq> 0x3F" and "c \<noteq> 0x23" and "c \<noteq> 0x2F"
  using assms
  by (auto simp: is_scheme_def is_ascii_alpha_def is_ascii_digit_def list_all_iff
      split: list.splits)

lemma origin_decompose:
  assumes "is_origin origin"
  shows "\<exists>sch auth. origin = sch @ [0x3A, 0x2F, 0x2F] @ auth \<and> is_scheme sch \<and> auth \<noteq> []
           \<and> (\<forall>c\<in>set auth. c \<noteq> 0x2F \<and> c \<noteq> 0x3F \<and> c \<noteq> 0x23)"
proof -
  let ?sch = "url_scheme origin" and ?auth = "after_scheme origin"
  let ?n = "length ?sch"
  from assms have s: "is_scheme ?sch" and t: "take 3 (drop ?n origin) = [0x3A, 0x2F, 0x2F]"
    and a: "url_authority origin \<noteq> []" and e: "url_authority origin = ?auth"
    unfolding is_origin_def is_absolute_url_def lit_def by auto
  have "?sch = take ?n origin"
    unfolding url_scheme_def by (rule takeWhile_eq_take)
  moreover have "drop ?n origin = take 3 (drop ?n origin) @ drop 3 (drop ?n origin)"
    by (rule append_take_drop_id [symmetric])
  then have "drop ?n origin = [0x3A, 0x2F, 0x2F] @ ?auth"
    unfolding t after_scheme_def by (simp add: add.commute)
  moreover have "origin = take ?n origin @ drop ?n origin"
    by (rule append_take_drop_id [symmetric])
  ultimately have o: "origin = ?sch @ [0x3A, 0x2F, 0x2F] @ ?auth"
    by metis
  have "takeWhile (\<lambda>c. c \<noteq> 0x2F \<and> c \<noteq> 0x3F \<and> c \<noteq> 0x23) ?auth = ?auth"
    using e by (simp add: url_authority_def)
  then have c: "\<forall>c\<in>set ?auth. c \<noteq> 0x2F \<and> c \<noteq> 0x3F \<and> c \<noteq> 0x23"
    by (rule iffD1 [OF takeWhile_eq_all_conv])
  from a e have "?auth \<noteq> []" by simp
  with o s c show ?thesis by blast
qed

lemma origin_no_query_fragment:
  assumes "is_origin origin"
  shows "0x3F \<notin> set origin" and "0x23 \<notin> set origin"
proof -
  from origin_decompose [OF assms] obtain sch auth where
    o: "origin = sch @ [0x3A, 0x2F, 0x2F] @ auth" and s: "is_scheme sch"
    and c: "\<forall>c\<in>set auth. c \<noteq> 0x2F \<and> c \<noteq> 0x3F \<and> c \<noteq> 0x23"
    by blast
  show "0x3F \<notin> set origin"
    unfolding o using scheme_chars(2) [OF s] c by auto
  show "0x23 \<notin> set origin"
    unfolding o using scheme_chars(3) [OF s] c by auto
qed

lemma scheme_of_prefix:
  assumes "is_scheme sch"
  shows "url_scheme (sch @ 0x3A # rest) = sch"
proof -
  have "\<forall>c\<in>set sch. c \<noteq> 0x3A"
    using scheme_chars(1) [OF assms] by blast
  then have "takeWhile (\<lambda>c. c \<noteq> 0x3A) sch = sch"
    by (rule iffD2 [OF takeWhile_eq_all_conv])
  then show ?thesis
    by (simp add: url_scheme_def takeWhile_tail)
qed

lemma absolute_url_of_origin:
  assumes "is_origin origin"
  shows "is_absolute_url (origin @ 0x2F # rest)"
    and "url_scheme (origin @ 0x2F # rest) = url_scheme origin"
    and "url_authority (origin @ 0x2F # rest) = url_authority origin"
proof -
  from origin_decompose [OF assms] obtain sch auth where
    o: "origin = sch @ [0x3A, 0x2F, 0x2F] @ auth" and s: "is_scheme sch" and n: "auth \<noteq> []"
    and c: "\<forall>c\<in>set auth. c \<noteq> 0x2F \<and> c \<noteq> 0x3F \<and> c \<noteq> 0x23"
    by blast
  have a: "takeWhile (\<lambda>c. c \<noteq> 0x2F \<and> c \<noteq> 0x3F \<and> c \<noteq> 0x23) auth = auth"
    using c by (rule iffD2 [OF takeWhile_eq_all_conv])
  have s1: "url_scheme origin = sch"
    unfolding o using scheme_of_prefix [OF s, of "[0x2F, 0x2F] @ auth"] by simp
  have s2: "url_scheme (origin @ 0x2F # rest) = sch"
    unfolding o using scheme_of_prefix [OF s, of "[0x2F, 0x2F] @ auth @ 0x2F # rest"] by simp
  have a1: "url_authority origin = auth"
    unfolding url_authority_def after_scheme_def s1 unfolding o using a by simp
  have a2: "url_authority (origin @ 0x2F # rest) = auth"
    unfolding url_authority_def after_scheme_def s2 unfolding o using a
    by (simp add: takeWhile_tail)
  show "url_scheme (origin @ 0x2F # rest) = url_scheme origin"
    by (simp only: s1 s2)
  show "url_authority (origin @ 0x2F # rest) = url_authority origin"
    by (simp only: a1 a2)
  have "take 3 (drop (length sch) (origin @ 0x2F # rest)) = lit ''://''"
    unfolding o by (simp add: lit_def)
  then show "is_absolute_url (origin @ 0x2F # rest)"
    unfolding is_absolute_url_def s2 a2 using s n by simp
qed

section \<open>The share link\<close>

lemma ucast_single_byte_text:
  "list_all (\<lambda>c. c \<le> 0xFF) m \<Longrightarrow> map ucast (map ucast m :: byte list) = (m :: jsstring)"
  by (induction m) (simp_all add: ucast_byte_inverse)

lemma ucast_single_byte_text_comp:
  "list_all (\<lambda>c. c \<le> 0xFF) m \<Longrightarrow> map (ucast \<circ> (ucast :: code_unit \<Rightarrow> byte)) m = (m :: jsstring)"
  using ucast_single_byte_text [of m] by simp

lemma encode_param_single_byte:
  assumes "list_all (\<lambda>c. c \<le> 0xFF) m"
  shows "encode_param (Str m) = Inr (concat (map uri_escape (base64_encode (map ucast m))))"
  using assms
  by (simp add: encode_param_def btoa_def
      encodeURIComponent_ascii [OF base64_text_ascii [OF is_base64_text_encode]])

lemma encode_param_throws:
  "\<not> list_all (\<lambda>c. c \<le> 0xFF) m \<Longrightarrow> encode_param (Str m) = Inl InvalidCharacterError"
  by (simp add: encode_param_def btoa_def)

lemma decode_param_base64:
  assumes "list_all (\<lambda>c. c \<le> 0xFF) m"
  shows "decode_param (base64_encode (map ucast m)) = Inr m"
  by (simp add: decode_param_def
      decodeURIComponent_plain [OF base64_text_no_percent [OF is_base64_text_encode]]
      atob_base64_encode ucast_single_byte_text_comp [OF assms])

lemma decode_param_escaped:
  assumes "list_all (\<lambda>c. c \<le> 0xFF) m"
  shows "decode_param (concat (map uri_escape (base64_encode (map ucast m)))) = Inr m"
  by (simp add: decode_param_def decodeURIComponent_escaped_text [OF is_base64_text_encode]
      atob_base64_encode ucast_single_byte_text_comp [OF assms])

lemma base64_of_text_empty_iff: "base64_encode (map ucast m) = [] \<longleftrightarrow> m = []"
  by (simp add: base64_encode_empty_iff)

lemma generateShareUrl_single_byte:
  assumes "list_all (\<lambda>c. c \<le> 0xFF) m" and "list_all (\<lambda>c. c \<le> 0xFF) s"
    and "list_all (\<lambda>c. c \<le> 0xFF) j"
  shows "generateShareUrl origin \<lparr>htmlCode = Str m, cssCode = Str s, jsCode = Str j, srcDoc = d\<rparr>
         = Inr (origin @ lit ''/?html='' @ concat (map uri_escape (base64_encode (map ucast m)))
                @ lit ''&css='' @ concat (map uri_escape (base64_encode (map ucast s)))
                @ lit ''&js='' @ concat (map uri_escape (base64_encode (map ucast j))))"
  by (simp add: generateShareUrl_def encode_param_single_byte [OF assms(1)]
      encode_param_single_byte [OF assms(2)] encode_param_single_byte [OF assms(3)])

lemma generateShareUrl_throws:
  assumes "\<not> list_all (\<lambda>c. c \<le> 0xFF) (m @ s @ j)"
  shows "generateShareUrl origin \<lparr>htmlCode = Str m, cssCode = Str s, jsCode = Str j, srcDoc = d\<rparr>
         = Inl InvalidCharacterError"
proof -
  have "encode_param (Str x) = Inl InvalidCharacterError \<or> (\<exists>e. encode_param (Str x) = Inr e)" for x
    by (cases "list_all (\<lambda>c. c \<le> 0xFF) x")
       (simp_all add: encode_param_throws encode_param_single_byte)
  note c = this
  from assms have "\<not> list_all (\<lambda>c. c \<le> 0xFF) m \<or> \<not> list_all (\<lambda>c. c \<le> 0xFF) s
                   \<or> \<not> list_all (\<lambda>c. c \<le> 0xFF) j"
    by simp
  then show ?thesis
    using c [of m] c [of s] c [of j]
    by (elim disjE) (auto simp: generateShareUrl_def encode_param_throws)
qed

lemma decode_params_decoded:
  assumes "decode_param v1 = Inr t1" and "decode_param v2 = Inr t2" and "decode_param v3 = Inr t3"
  shows "htmlCode (decode_params (Some v1) (Some v2) (Some v3) st)
           = (if v1 = [] then htmlCode st else Str t1)"
    and "cssCode (decode_params (Some v1) (Some v2) (Some v3) st)
           = (if v2 = [] then cssCode st else Str t2)"
    and "jsCode (decode_params (Some v1) (Some v2) (Some v3) st)
           = (if v3 = [] then jsCode st else Str t3)"
    and "srcDoc (decode_params (Some v1) (Some v2) (Some v3) st) = srcDoc st"
proof -
  have e: "decode_params (Some v1) (Some v2) (Some v3) st =
             set_if_truthy (Some v3) setJsCode
               (set_if_truthy (Some v2) setCssCode (set_if_truthy (Some v1) setHtmlCode st))"
    by (rule decode_params_no_throw) (simp_all add: assms)
  show "htmlCode (decode_params (Some v1) (Some v2) (Some v3) st)
           = (if v1 = [] then htmlCode st else Str t1)"
    unfolding e by (simp add: set_if_truthy_fields) (simp add: set_if_truthy_def assms setters)
  show "cssCode (decode_params (Some v1) (Some v2) (Some v3) st)
           = (if v2 = [] then cssCode st else Str t2)"
    unfolding e by (simp add: set_if_truthy_fields) (simp add: set_if_truthy_def assms setters)
  show "jsCode (decode_params (Some v1) (Some v2) (Some v3) st)
           = (if v3 = [] then jsCode st else Str t3)"
    unfolding e by (simp add: set_if_truthy_def assms setters)
  show "srcDoc (decode_params (Some v1) (Some v2) (Some v3) st) = srcDoc st"
    unfolding e by (simp add: set_if_truthy_fields)
qed

lemma url_effect_of_pairs:
  assumes "URLSearchParams search = [(lit ''html'', v1), (lit ''css'', v2), (lit ''js'', v3)]"
  shows "url_effect search st = decode_params (Some v1) (Some v2) (Some v3) st"
  unfolding url_effect_def assms URLSearchParams_get_def Let_def
  by (simp add: lit_def)

lemma url_effect_share_url:
  assumes "list_all (\<lambda>c. c \<le> 0xFF) m" and "list_all (\<lambda>c. c \<le> 0xFF) s"
    and "list_all (\<lambda>c. c \<le> 0xFF) j" and "0x3F \<notin> set origin" and "0x23 \<notin> set origin"
  shows "url_effect
           (location_search
              (origin @ lit ''/?html='' @ concat (map uri_escape (base64_encode (map ucast m)))
                 @ lit ''&css='' @ concat (map uri_escape (base64_encode (map ucast s)))
                 @ lit ''&js='' @ concat (map uri_escape (base64_encode (map ucast j))))) st
         = decode_params (Some (base64_encode (map ucast m))) (Some (base64_encode (map ucast s)))
             (Some (base64_encode (map ucast j))) st"
proof -
  let ?b1 = "base64_encode (map ucast m)" and ?b2 = "base64_encode (map ucast s)"
    and ?b3 = "base64_encode (map ucast j)"
  have p1: "list_all is_param_char (concat (map uri_escape ?b1))"
    and p2: "list_all is_param_char (concat (map uri_escape ?b2))"
    and p3: "list_all is_param_char (concat (map uri_escape ?b3))"
    by (rule param_chars_escaped_text [OF is_base64_text_encode])+
  have "URLSearchParams
          (location_search
             (origin @ lit ''/?html='' @ concat (map uri_escape ?b1)
                @ lit ''&css='' @ concat (map uri_escape ?b2)
                @ lit ''&js='' @ concat (map uri_escape ?b3)))
        = [(lit ''html'', ?b1), (lit ''css'', ?b2), (lit ''js'', ?b3)]"
    by (simp only: location_search_share_url [OF assms(4,5) p1 p2 p3]
        URLSearchParams_share_query [OF p1 p2 p3]
        urlencoded_field_escaped_text [OF is_base64_text_encode])
  then show ?thesis by (rule url_effect_of_pairs)
qed

lemmas share_eval = generateShareUrl_def encode_param_def btoa_def b64_char_def b64_alphabet_def
  b64_pad_def uri_unescaped_def prepend_def percent_bytes_def percent_byte_def utf8_encode_cp_def
  hex_digits_def is_lead_surrogate_def is_trail_surrogate_def lit_def

lemma share_url_example:
  "generateShareUrl (lit ''http://localhost:3000'')
     \<lparr>htmlCode = Str (lit ''<p>hi</p>''), cssCode = Str (lit ''p{color:red}''),
      jsCode = Str (lit ''console.log(1)''), srcDoc = []\<rparr>
   = Inr (lit ''http://localhost:3000/?html=PHA%2BaGk8L3A%2B&css=cHtjb2xvcjpyZWR9&js=Y29uc29sZS5sb2coMSk%3D'')"
  by (simp add: share_eval)

lemma share_url_empty_markup:
  "generateShareUrl (lit ''http://localhost:3000'')
     \<lparr>htmlCode = Str [], cssCode = Str (lit ''p{color:red}''),
      jsCode = Str (lit ''console.log(1)''), srcDoc = []\<rparr>
   = Inr (lit ''http://localhost:3000/?html=&css=cHtjb2xvcjpyZWR9&js=Y29uc29sZS5sb2coMSk%3D'')"
  by (simp add: share_eval)

lemma share_url_empty_style:
  "generateShareUrl (lit ''https://example.org'')
     \<lparr>htmlCode = Str (lit ''<p>hi</p>''), cssCode = Str [],
      jsCode = Str (lit ''console.log(1)''), srcDoc = []\<rparr>
   = Inr (lit ''https://example.org/?html=PHA%2BaGk8L3A%2B&css=&js=Y29uc29sZS5sb2coMSk%3D'')"
  by (simp add: share_eval)

lemma example_texts_single_byte:
  "list_all (\<lambda>c. c \<le> 0xFF) (lit ''<p>hi</p>'')"
  "list_all (\<lambda>c. c \<le> 0xFF) (lit ''p{color:red}'')"
  "list_all (\<lambda>c. c \<le> 0xFF) (lit ''console.log(1)'')"
  "list_all (\<lambda>c. c \<le> 0xFF) ([] :: jsstring)"
  by (simp_all add: lit_def)

lemma example_origins:
  "is_origin (lit ''http://localhost:3000'')"
  "is_origin (lit ''https://example.org'')"
  by (simp_all add: is_origin_def is_absolute_url_def url_scheme_def url_authority_def
      after_scheme_def is_scheme_def is_ascii_alpha_def is_ascii_digit_def lit_def)

text \<open>
  The round trip for buffers that are not empty. For every triple of buffers whose
  characters fit a single byte, and every origin, \<open>generateShareUrl\<close> returns a URL, and the
  effect run on the query of that URL sets every buffer whose text is not empty to exactly
  that text. A buffer whose text is empty keeps the value it had before.
\<close>

lemma share_link_restores_nonempty_buffers:
  assumes "list_all (\<lambda>c. c \<le> 0xFF) m" and "list_all (\<lambda>c. c \<le> 0xFF) s"
    and "list_all (\<lambda>c. c \<le> 0xFF) j" and "is_origin origin"
  shows "\<exists>url. generateShareUrl origin
                  \<lparr>htmlCode = Str m, cssCode = Str s, jsCode = Str j, srcDoc = d\<rparr> = Inr url
           \<and> htmlCode (url_effect (location_search url) st) = (if m = [] then htmlCode st else Str m)
           \<and> cssCode (url_effect (location_search url) st) = (if s = [] then cssCode st else Str s)
           \<and> jsCode (url_effect (location_search url) st) = (if j = [] then jsCode st else Str j)
           \<and> srcDoc (url_effect (location_search url) st) = srcDoc st"
proof -
  let ?url = "origin @ lit ''/?html='' @ concat (map uri_escape (base64_encode (map ucast m)))
                @ lit ''&css='' @ concat (map uri_escape (base64_encode (map ucast s)))
                @ lit ''&js='' @ concat (map uri_escape (base64_encode (map ucast j)))"
  have g: "generateShareUrl origin
             \<lparr>htmlCode = Str m, cssCode = Str s, jsCode = Str j, srcDoc = d\<rparr> = Inr ?url"
    using assms(1-3) by (rule generateShareUrl_single_byte)
  have e: "url_effect (location_search ?url) st
           = decode_params (Some (base64_encode (map ucast m)))
               (Some (base64_encode (map ucast s))) (Some (base64_encode (map ucast j))) st"
    using assms(1-3) origin_no_query_fragment [OF assms(4)] by (rule url_effect_share_url)
  note f = decode_params_decoded [OF decode_param_base64 [OF assms(1)]
      decode_param_base64 [OF assms(2)] decode_param_base64 [OF assms(3)], of st]
  have "htmlCode (url_effect (location_search ?url) st) = (if m = [] then htmlCode st else Str m)"
    unfolding e f(1) base64_of_text_empty_iff ..
  moreover have "cssCode (url_effect (location_search ?url) st) = (if s = [] then cssCode st else Str s)"
    unfolding e f(2) base64_of_text_empty_iff ..
  moreover have "jsCode (url_effect (location_search ?url) st) = (if j = [] then jsCode st else Str j)"
    unfolding e f(3) base64_of_text_empty_iff ..
  moreover have "srcDoc (url_effect (location_search ?url) st) = srcDoc st"
    unfolding e f(4) ..
  ultimately show ?thesis using g by blast
qed

lemma share_link_example_restored:
  "generateShareUrl (lit ''http://localhost:3000'')
     \<lparr>htmlCode = Str (lit ''<p>hi</p>''), cssCode = Str (lit ''p{color:red}''),
      jsCode = Str (lit ''console.log(1)''), srcDoc = []\<rparr>
   = Inr (lit ''http://localhost:3000/?html=PHA%2BaGk8L3A%2B&css=cHtjb2xvcjpyZWR9&js=Y29uc29sZS5sb2coMSk%3D'')
   \<and> htmlCode (url_effect (location_search
         (lit ''http://localhost:3000/?html=PHA%2BaGk8L3A%2B&css=cHtjb2xvcjpyZWR9&js=Y29uc29sZS5sb2coMSk%3D''))
         initial_state) = Str (lit ''<p>hi</p>'')
   \<and> cssCode (url_effect (location_search
         (lit ''http://localhost:3000/?html=PHA%2BaGk8L3A%2B&css=cHtjb2xvcjpyZWR9&js=Y29uc29sZS5sb2coMSk%3D''))
         initial_state) = Str (lit ''p{color:red}'')
   \<and> jsCode (url_effect (location_search
         (lit ''http://localhost:3000/?html=PHA%2BaGk8L3A%2B&css=cHtjb2xvcjpyZWR9&js=Y29uc29sZS5sb2coMSk%3D''))
         initial_state) = Str (lit ''console.log(1)'')"
proof -
  have ne: "lit ''<p>hi</p>'' \<noteq> []" "lit ''p{color:red}'' \<noteq> []" "lit ''console.log(1)'' \<noteq> []"
    by (simp_all add: lit_def)
  from share_link_restores_nonempty_buffers
         [OF example_texts_single_byte(1,2,3) example_origins(1), of "[]" initial_state]
  obtain url where
    u: "generateShareUrl (lit ''http://localhost:3000'')
          \<lparr>htmlCode = Str (lit ''<p>hi</p>''), cssCode = Str (lit ''p{color:red}''),
           jsCode = Str (lit ''console.log(1)''), srcDoc = []\<rparr> = Inr url"
    and h: "htmlCode (url_effect (location_search url) initial_state) = Str (lit ''<p>hi</p>'')"
    and c: "cssCode (url_effect (location_search url) initial_state) = Str (lit ''p{color:red}'')"
    and j: "jsCode (url_effect (location_search url) initial_state) = Str (lit ''console.log(1)'')"
    using ne by auto
  from u share_url_example have
    "url = lit ''http://localhost:3000/?html=PHA%2BaGk8L3A%2B&css=cHtjb2xvcjpyZWR9&js=Y29uc29sZS5sb2coMSk%3D''"
    by simp
  with h c j share_url_example show ?thesis by simp
qed

text \<open>
  C1. The round trip fails for an empty buffer. \<open>generateShareUrl\<close> writes the empty markup
  buffer as the parameter \<open>html=\<close>; in the page opened at that URL \<open>urlParams.get('html')\<close>
  is the empty string, which \<open>if (urlHtml)\<close> takes for an absent parameter, so the markup
  buffer is not set: it holds the markup of the default template, which is not the empty
  text that was shared.
\<close>

theorem empty_buffer_not_restored:
  "generateShareUrl (lit ''http://localhost:3000'')
     \<lparr>htmlCode = Str [], cssCode = Str (lit ''p{color:red}''),
      jsCode = Str (lit ''console.log(1)''), srcDoc = []\<rparr>
   = Inr (lit ''http://localhost:3000/?html=&css=cHtjb2xvcjpyZWR9&js=Y29uc29sZS5sb2coMSk%3D'')
   \<and> htmlCode (url_effect (location_search
         (lit ''http://localhost:3000/?html=&css=cHtjb2xvcjpyZWR9&js=Y29uc29sZS5sb2coMSk%3D''))
         initial_state) = Str TEMPLATES_default_html
   \<and> Str TEMPLATES_default_html \<noteq> Str []"
proof -
  let ?url = "lit ''http://localhost:3000/?html=&css=cHtjb2xvcjpyZWR9&js=Y29uc29sZS5sb2coMSk%3D''"
  have g: "generateShareUrl (lit ''http://localhost:3000'')
             \<lparr>htmlCode = Str [], cssCode = Str (lit ''p{color:red}''),
              jsCode = Str (lit ''console.log(1)''), srcDoc = []\<rparr> = Inr ?url"
    by (rule share_url_empty_markup)
  have "generateShareUrl (lit ''http://localhost:3000'')
             \<lparr>htmlCode = Str [], cssCode = Str (lit ''p{color:red}''),
              jsCode = Str (lit ''console.log(1)''), srcDoc = []\<rparr>
        = Inr (lit ''http://localhost:3000'' @ lit ''/?html=''
               @ concat (map uri_escape (base64_encode (map ucast ([] :: jsstring))))
               @ lit ''&css='' @ concat (map uri_escape (base64_encode (map ucast (lit ''p{color:red}''))))
               @ lit ''&js='' @ concat (map uri_escape (base64_encode (map ucast (lit ''console.log(1)'')))))"
    by (rule generateShareUrl_single_byte [OF example_texts_single_byte(4,2,3)])
  with g have u: "?url = lit ''http://localhost:3000'' @ lit ''/?html=''
               @ concat (map uri_escape (base64_encode (map ucast ([] :: jsstring))))
               @ lit ''&css='' @ concat (map uri_escape (base64_encode (map ucast (lit ''p{color:red}''))))
               @ lit ''&js='' @ concat (map uri_escape (base64_encode (map ucast (lit ''console.log(1)''))))"
    by simp
  have e: "url_effect (location_search ?url) initial_state
           = decode_params (Some (base64_encode (map ucast ([] :: jsstring))))
               (Some (base64_encode (map ucast (lit ''p{color:red}''))))
               (Some (base64_encode (map ucast (lit ''console.log(1)'')))) initial_state"
    unfolding u
    by (rule url_effect_share_url [OF example_texts_single_byte(4,2,3)
          origin_no_query_fragment [OF example_origins(1)]])
  have "htmlCode (url_effect (location_search ?url) initial_state) = htmlCode initial_state"
    unfolding e
      decode_params_decoded(1) [OF decode_param_base64 [OF example_texts_single_byte(4)]
        decode_param_base64 [OF example_texts_single_byte(2)]
        decode_param_base64 [OF example_texts_single_byte(3)]]
    by simp
  moreover have "TEMPLATES_default_html \<noteq> []"
    by (simp add: TEMPLATES_default_html_def lit_def)
  ultimately show ?thesis
    using g by (simp add: initial_state_def)
qed

text \<open>
  C3, as the code has it. \<open>btoa\<close> accepts exactly the strings whose code units are at most
  U+00FF. For a triple of such buffers \<open>generateShareUrl\<close> returns the URL and corrupts
  nothing: each parameter value decodes, by \<open>atob(decodeURIComponent(v))\<close>, to exactly the
  buffer it was made from. For a triple with a code unit above U+00FF it throws
  \<open>InvalidCharacterError\<close> and returns nothing.
\<close>

theorem encode_throws_exactly_outside_single_byte:
  "(list_all (\<lambda>c. c \<le> 0xFF) (m @ s @ j) \<longrightarrow>
      (\<exists>e1 e2 e3.
         generateShareUrl origin \<lparr>htmlCode = Str m, cssCode = Str s, jsCode = Str j, srcDoc = d\<rparr>
           = Inr (origin @ lit ''/?html='' @ e1 @ lit ''&css='' @ e2 @ lit ''&js='' @ e3)
         \<and> decode_param e1 = Inr m \<and> decode_param e2 = Inr s \<and> decode_param e3 = Inr j))
   \<and> (\<not> list_all (\<lambda>c. c \<le> 0xFF) (m @ s @ j) \<longrightarrow>
        generateShareUrl origin \<lparr>htmlCode = Str m, cssCode = Str s, jsCode = Str j, srcDoc = d\<rparr>
          = Inl InvalidCharacterError)"
proof (intro conjI impI)
  assume "list_all (\<lambda>c. c \<le> 0xFF) (m @ s @ j)"
  then have a: "list_all (\<lambda>c. c \<le> 0xFF) m" "list_all (\<lambda>c. c \<le> 0xFF) s"
    "list_all (\<lambda>c. c \<le> 0xFF) j"
    by simp_all
  from generateShareUrl_single_byte [OF a] decode_param_escaped [OF a(1)]
    decode_param_escaped [OF a(2)] decode_param_escaped [OF a(3)]
  show "\<exists>e1 e2 e3.
         generateShareUrl origin \<lparr>htmlCode = Str m, cssCode = Str s, jsCode = Str j, srcDoc = d\<rparr>
           = Inr (origin @ lit ''/?html='' @ e1 @ lit ''&css='' @ e2 @ lit ''&js='' @ e3)
         \<and> decode_param e1 = Inr m \<and> decode_param e2 = Inr s \<and> decode_param e3 = Inr j"
    by blast
next
  assume "\<not> list_all (\<lambda>c. c \<le> 0xFF) (m @ s @ j)"
  then show "generateShareUrl origin
               \<lparr>htmlCode = Str m, cssCode = Str s, jsCode = Str j, srcDoc = d\<rparr>
             = Inl InvalidCharacterError"
    by (rule generateShareUrl_throws)
qed

theorem encode_throws_exactly_outside_single_byte_witness:
  "(\<exists>e1 e2 e3.
      generateShareUrl (lit ''http://localhost:3000'')
        \<lparr>htmlCode = Str (lit ''<p>hi</p>''), cssCode = Str (lit ''p{color:red}''),
         jsCode = Str (lit ''console.log(1)''), srcDoc = []\<rparr>
        = Inr (lit ''http://localhost:3000'' @ lit ''/?html='' @ e1 @ lit ''&css='' @ e2
               @ lit ''&js='' @ e3)
      \<and> decode_param e1 = Inr (lit ''<p>hi</p>'') \<and> decode_param e2 = Inr (lit ''p{color:red}'')
      \<and> decode_param e3 = Inr (lit ''console.log(1)''))
   \<and> generateShareUrl (lit ''http://localhost:3000'')
        \<lparr>htmlCode = Str (lit ''<p>hi</p>''), cssCode = Str (lit ''p{color:red}''),
         jsCode = Str [0x2F, 0x2F, 0x4E16], srcDoc = []\<rparr>
       = Inl InvalidCharacterError"
proof -
  have a: "list_all (\<lambda>c. c \<le> 0xFF)
             (lit ''<p>hi</p>'' @ lit ''p{color:red}'' @ lit ''console.log(1)'')"
    by (simp add: lit_def)
  have b: "\<not> list_all (\<lambda>c. c \<le> 0xFF)
             (lit ''<p>hi</p>'' @ lit ''p{color:red}'' @ [0x2F, 0x2F, 0x4E16 :: code_unit])"
    by (simp add: lit_def)
  from encode_throws_exactly_outside_single_byte
         [of "lit ''<p>hi</p>''" "lit ''p{color:red}''" "lit ''console.log(1)''"
             "lit ''http://localhost:3000''" "[]"]
       encode_throws_exactly_outside_single_byte
         [of "lit ''<p>hi</p>''" "lit ''p{color:red}''" "[0x2F, 0x2F, 0x4E16]"
             "lit ''http://localhost:3000''" "[]"]
       a b
  show ?thesis by blast
qed

text \<open>
  The claim as the specification states it fails outside the single-byte range: a
  markup buffer holding the euro sign makes the encode operation throw.
\<close>

theorem encode_throws_on_euro_sign:
  "generateShareUrl (lit ''http://localhost:3000'')
     \<lparr>htmlCode = Str [0x20AC], cssCode = Str [], jsCode = Str [], srcDoc = []\<rparr>
   = Inl InvalidCharacterError"
  by (simp add: generateShareUrl_def encode_param_def btoa_def)

text \<open>
  C7, as the code has it. For every triple of buffers whose characters fit a single
  byte the result is the origin followed by \<open>/?html=\<close>, the encoded markup, \<open>&css=\<close>, the
  encoded style, \<open>&js=\<close> and the encoded script, in that order. The encoded values hold
  only letters, digits and \<open>%\<close>, and the value of an empty buffer, and only of an empty
  buffer, is empty, its parameter still being written. With \<open>window.location.origin\<close> for
  the origin, the result is an absolute URL with the scheme and the authority of the
  origin, and its query is exactly the three parameters. For every other triple the
  operation throws and produces no URL.
\<close>

theorem share_url_form:
  "(list_all (\<lambda>c. c \<le> 0xFF) (m @ s @ j) \<longrightarrow>
      (\<exists>e1 e2 e3.
         generateShareUrl origin \<lparr>htmlCode = Str m, cssCode = Str s, jsCode = Str j, srcDoc = d\<rparr>
           = Inr (origin @ lit ''/?html='' @ e1 @ lit ''&css='' @ e2 @ lit ''&js='' @ e3)
         \<and> encode_param (Str m) = Inr e1 \<and> encode_param (Str s) = Inr e2
         \<and> encode_param (Str j) = Inr e3
         \<and> list_all is_param_char e1 \<and> list_all is_param_char e2 \<and> list_all is_param_char e3
         \<and> (e1 = [] \<longleftrightarrow> m = []) \<and> (e2 = [] \<longleftrightarrow> s = []) \<and> (e3 = [] \<longleftrightarrow> j = [])
         \<and> (is_origin origin \<longrightarrow>
              is_absolute_url (origin @ lit ''/?html='' @ e1 @ lit ''&css='' @ e2 @ lit ''&js='' @ e3)
              \<and> url_scheme (origin @ lit ''/?html='' @ e1 @ lit ''&css='' @ e2 @ lit ''&js='' @ e3)
                  = url_scheme origin
              \<and> url_authority (origin @ lit ''/?html='' @ e1 @ lit ''&css='' @ e2 @ lit ''&js='' @ e3)
                  = url_authority origin
              \<and> location_search (origin @ lit ''/?html='' @ e1 @ lit ''&css='' @ e2 @ lit ''&js='' @ e3)
                  = lit ''?html='' @ e1 @ lit ''&css='' @ e2 @ lit ''&js='' @ e3)))
   \<and> (\<not> list_all (\<lambda>c. c \<le> 0xFF) (m @ s @ j) \<longrightarrow>
        generateShareUrl origin \<lparr>htmlCode = Str m, cssCode = Str s, jsCode = Str j, srcDoc = d\<rparr>
          = Inl InvalidCharacterError)"
proof (intro conjI impI)
  assume "list_all (\<lambda>c. c \<le> 0xFF) (m @ s @ j)"
  then have a: "list_all (\<lambda>c. c \<le> 0xFF) m" "list_all (\<lambda>c. c \<le> 0xFF) s"
    "list_all (\<lambda>c. c \<le> 0xFF) j"
    by simp_all
  let ?e1 = "concat (map uri_escape (base64_encode (map ucast m)))"
  let ?e2 = "concat (map uri_escape (base64_encode (map ucast s)))"
  let ?e3 = "concat (map uri_escape (base64_encode (map ucast j)))"
  let ?url = "origin @ lit ''/?html='' @ ?e1 @ lit ''&css='' @ ?e2 @ lit ''&js='' @ ?e3"
  have p: "list_all is_param_char (concat (map uri_escape (base64_encode (map ucast x))))"
    for x :: jsstring
    by (rule param_chars_escaped_text [OF is_base64_text_encode])
  have n: "concat (map uri_escape (base64_encode (map ucast x))) = [] \<longleftrightarrow> x = []"
    for x :: jsstring
    by (simp only: escaped_text_empty_iff [OF is_base64_text_encode] base64_of_text_empty_iff)
  have r: "?url = origin @ 0x2F # (lit ''?html='' @ ?e1 @ lit ''&css='' @ ?e2 @ lit ''&js='' @ ?e3)"
    by (simp add: lit_def)
  have o: "is_absolute_url ?url \<and> url_scheme ?url = url_scheme origin
           \<and> url_authority ?url = url_authority origin
           \<and> location_search ?url = lit ''?html='' @ ?e1 @ lit ''&css='' @ ?e2 @ lit ''&js='' @ ?e3"
    if "is_origin origin"
  proof -
    have "location_search ?url = lit ''?html='' @ ?e1 @ lit ''&css='' @ ?e2 @ lit ''&js='' @ ?e3"
      by (rule location_search_share_url [OF origin_no_query_fragment [OF that] p p p])
    moreover have "is_absolute_url ?url" "url_scheme ?url = url_scheme origin"
      "url_authority ?url = url_authority origin"
      unfolding r by (rule absolute_url_of_origin [OF that])+
    ultimately show ?thesis by blast
  qed
  from generateShareUrl_single_byte [OF a, of origin d] encode_param_single_byte [OF a(1)]
    encode_param_single_byte [OF a(2)] encode_param_single_byte [OF a(3)]
    p [of m] p [of s] p [of j] n [of m] n [of s] n [of j] o
  show "\<exists>e1 e2 e3.
         generateShareUrl origin \<lparr>htmlCode = Str m, cssCode = Str s, jsCode = Str j, srcDoc = d\<rparr>
           = Inr (origin @ lit ''/?html='' @ e1 @ lit ''&css='' @ e2 @ lit ''&js='' @ e3)
         \<and> encode_param (Str m) = Inr e1 \<and> encode_param (Str s) = Inr e2
         \<and> encode_param (Str j) = Inr e3
         \<and> list_all is_param_char e1 \<and> list_all is_param_char e2 \<and> list_all is_param_char e3
         \<and> (e1 = [] \<longleftrightarrow> m = []) \<and> (e2 = [] \<longleftrightarrow> s = []) \<and> (e3 = [] \<longleftrightarrow> j = [])
         \<and> (is_origin origin \<longrightarrow>
              is_absolute_url (origin @ lit ''/?html='' @ e1 @ lit ''&css='' @ e2 @ lit ''&js='' @ e3)
              \<and> url_scheme (origin @ lit ''/?html='' @ e1 @ lit ''&css='' @ e2 @ lit ''&js='' @ e3)
                  = url_scheme origin
              \<and> url_authority (origin @ lit ''/?html='' @ e1 @ lit ''&css='' @ e2 @ lit ''&js='' @ e3)
                  = url_authority origin
              \<and> location_search (origin @ lit ''/?html='' @ e1 @ lit ''&css='' @ e2 @ lit ''&js='' @ e3)
                  = lit ''?html='' @ e1 @ lit ''&css='' @ e2 @ lit ''&js='' @ e3)"
    by (intro exI [of _ ?e1] exI [of _ ?e2] exI [of _ ?e3]) blast
next
  assume "\<not> list_all (\<lambda>c. c \<le> 0xFF) (m @ s @ j)"
  then show "generateShareUrl origin
               \<lparr>htmlCode = Str m, cssCode = Str s, jsCode = Str j, srcDoc = d\<rparr>
             = Inl InvalidCharacterError"
    by (rule generateShareUrl_throws)
qed

theorem share_url_form_witness:
  "generateShareUrl (lit ''https://example.org'')
     \<lparr>htmlCode = Str (lit ''<p>hi</p>''), cssCode = Str [],
      jsCode = Str (lit ''console.log(1)''), srcDoc = []\<rparr>
   = Inr (lit ''https://example.org/?html=PHA%2BaGk8L3A%2B&css=&js=Y29uc29sZS5sb2coMSk%3D'')
   \<and> is_origin (lit ''https://example.org'')
   \<and> is_absolute_url
        (lit ''https://example.org/?html=PHA%2BaGk8L3A%2B&css=&js=Y29uc29sZS5sb2coMSk%3D'')
   \<and> url_scheme (lit ''https://example.org/?html=PHA%2BaGk8L3A%2B&css=&js=Y29uc29sZS5sb2coMSk%3D'')
       = lit ''https''
   \<and> url_authority (lit ''https://example.org/?html=PHA%2BaGk8L3A%2B&css=&js=Y29uc29sZS5sb2coMSk%3D'')
       = lit ''example.org''
   \<and> encode_param (Str []) = Inr []
   \<and> generateShareUrl (lit ''https://example.org'')
        \<lparr>htmlCode = Str (lit ''<p>hi</p>''), cssCode = Str [],
         jsCode = Str [0x03C0], srcDoc = []\<rparr>
       = Inl InvalidCharacterError"
proof -
  let ?url = "lit ''https://example.org/?html=PHA%2BaGk8L3A%2B&css=&js=Y29uc29sZS5sb2coMSk%3D''"
  have a: "list_all (\<lambda>c. c \<le> 0xFF) (lit ''<p>hi</p>'' @ [] @ lit ''console.log(1)'')"
    by (simp add: lit_def)
  have b: "\<not> list_all (\<lambda>c. c \<le> 0xFF) (lit ''<p>hi</p>'' @ [] @ [0x03C0 :: code_unit])"
    by (simp add: lit_def)
  from share_url_form [of "lit ''<p>hi</p>''" "[]" "lit ''console.log(1)''"
         "lit ''https://example.org''" "[]"] a example_origins(2)
  obtain e1 e2 e3 where
    u: "generateShareUrl (lit ''https://example.org'')
          \<lparr>htmlCode = Str (lit ''<p>hi</p>''), cssCode = Str [],
           jsCode = Str (lit ''console.log(1)''), srcDoc = []\<rparr>
        = Inr (lit ''https://example.org'' @ lit ''/?html='' @ e1 @ lit ''&css='' @ e2
               @ lit ''&js='' @ e3)"
    and e: "encode_param (Str []) = Inr e2" and z: "e2 = []"
    and ab: "is_absolute_url (lit ''https://example.org'' @ lit ''/?html='' @ e1 @ lit ''&css='' @ e2
               @ lit ''&js='' @ e3)"
    and sc: "url_scheme (lit ''https://example.org'' @ lit ''/?html='' @ e1 @ lit ''&css='' @ e2
               @ lit ''&js='' @ e3) = url_scheme (lit ''https://example.org'')"
    and au: "url_authority (lit ''https://example.org'' @ lit ''/?html='' @ e1 @ lit ''&css='' @ e2
               @ lit ''&js='' @ e3) = url_authority (lit ''https://example.org'')"
    by auto
  from u share_url_empty_style have
    v: "lit ''https://example.org'' @ lit ''/?html='' @ e1 @ lit ''&css='' @ e2 @ lit ''&js='' @ e3
        = ?url"
    by simp
  have s0: "url_scheme (lit ''https://example.org'') = lit ''https''"
    by (simp add: url_scheme_def lit_def)
  have a0: "url_authority (lit ''https://example.org'') = lit ''example.org''"
    by (simp add: url_authority_def after_scheme_def url_scheme_def lit_def)
  from share_url_form [of "lit ''<p>hi</p>''" "[]" "[0x03C0]" "lit ''https://example.org''" "[]"] b
  have t: "generateShareUrl (lit ''https://example.org'')
        \<lparr>htmlCode = Str (lit ''<p>hi</p>''), cssCode = Str [],
         jsCode = Str [0x03C0], srcDoc = []\<rparr>
       = Inl InvalidCharacterError"
    by blast
  from ab sc au have "is_absolute_url ?url" "url_scheme ?url = lit ''https''"
    "url_authority ?url = lit ''example.org''"
    unfolding v s0 a0 by blast+
  with share_url_empty_style example_origins(2) e z t show ?thesis by blast
qed

text \<open>
  The claim as the specification states it fails outside the single-byte range: with a
  style buffer holding a CJK character no URL is produced.
\<close>

theorem no_share_url_for_cjk_style:
  "generateShareUrl (lit ''https://example.org'')
     \<lparr>htmlCode = Str (lit ''<p>hi</p>''), cssCode = Str [0x4E2D], jsCode = Str [], srcDoc = []\<rparr>
   = Inl InvalidCharacterError"
  by (simp add: share_eval)

end
